theory Spec2Isabelle
  imports Complex_Main "HOL-Library.AList"
begin

section \<open>Python values, exceptions and the spreadsheet\<close>

text \<open>
  The program (\<^verbatim>\<open>src/scraper.py\<close>) reads a workbook, resolves every row's settlement name
  to a code through a remote search (memoised in \<^verbatim>\<open>SETTLEMENT_CODE_CACHE\<close>), asks the
  remote map service for the polling station's polygon and prints one GeoJSON
  FeatureCollection.

  A spreadsheet cell, as openpyxl hands it over, is \<^verbatim>\<open>None\<close>, a \<^verbatim>\<open>str\<close> or an \<^verbatim>\<open>int\<close>;
  floating-point, boolean and date cells are left out of the model. A value decoded from
  JSON is a \<open>pyval\<close>; a JSON object is the list of the items of the resulting \<^verbatim>\<open>dict\<close>
  (distinct keys, insertion order). Floats are never computed on by the program, only
  passed on, and are carried as real numbers.
\<close>

datatype cell = CNone | CStr string | CInt int

datatype pyval =
    PNone
  | PBool bool
  | PInt int
  | PFloat real
  | PStr string
  | PList "pyval list"
  | PDict "(string \<times> pyval) list"

type_synonym params = "(string \<times> pyval) list"

text \<open>
  Exceptions are values. \<open>ResolutionError name cause params\<close> is the \<^verbatim>\<open>Exception\<close> raised at
  line 113 of the source; its message interpolates the settlement name, \<^verbatim>\<open>str(e)\<close> of the
  exception caught and the request parameters, which are kept here as the three
  arguments. \<open>ClientError\<close> stands for whatever the HTTP client raises (connection refused,
  payload error, wrong content type), \<open>JSONDecodeError\<close> for a failure of
  \<^verbatim>\<open>json.loads\<close>, \<open>ReError\<close> for \<^verbatim>\<open>re.error\<close>. \<open>NotModelled\<close> is not a Python exception: the
  reference regular-expression engine below returns it for a pattern outside the fragment
  it implements.
\<close>

datatype error =
    StopIteration
  | KeyError string
  | IndexError
  | TypeError
  | ValueError
  | ReError
  | JSONDecodeError
  | ClientError string
  | NotModelled
  | ResolutionError cell error params

text \<open>A response of the HTTP client is what \<^verbatim>\<open>await response.json()\<close> gives: the decoded
  body, or the exception it raises. The program never reads the status of a response, so
  a response stands for an answer of any status, 2xx or not.\<close>

type_synonym response = "error + pyval"

definition and_then :: "error + 'a \<Rightarrow> ('a \<Rightarrow> error + 'b) \<Rightarrow> error + 'b" where
  "and_then r f = (case r of Inl e \<Rightarrow> Inl e | Inr x \<Rightarrow> f x)"

fun traverse :: "('a \<Rightarrow> error + 'b) \<Rightarrow> 'a list \<Rightarrow> error + 'b list" where
  "traverse f [] = Inr []"
| "traverse f (x # xs) =
     (case f x of
        Inl e \<Rightarrow> Inl e
      | Inr y \<Rightarrow> (case traverse f xs of Inl e \<Rightarrow> Inl e | Inr ys \<Rightarrow> Inr (y # ys)))"

text \<open>\<^verbatim>\<open>row[i]\<close> on a tuple, for the non-negative indices the program uses.\<close>

definition py_index :: "'a list \<Rightarrow> nat \<Rightarrow> error + 'a" where
  "py_index xs i = (if i < length xs then Inr (xs ! i) else Inl IndexError)"

text \<open>\<^verbatim>\<open>v[key]\<close> with a string key: only a dict can answer, everything else raises TypeError.\<close>

definition py_getitem :: "pyval \<Rightarrow> string \<Rightarrow> error + pyval" where
  "py_getitem v k =
     (case v of
        PDict items \<Rightarrow> (case map_of items k of None \<Rightarrow> Inl (KeyError k) | Some x \<Rightarrow> Inr x)
      | _ \<Rightarrow> Inl TypeError)"

text \<open>Iterating a value: a list gives its elements, a dict its keys, a string its
  characters; nothing else is iterable.\<close>

definition py_iter :: "pyval \<Rightarrow> error + pyval list" where
  "py_iter v =
     (case v of
        PList xs \<Rightarrow> Inr xs
      | PDict items \<Rightarrow> Inr (map (\<lambda>kv. PStr (fst kv)) items)
      | PStr s \<Rightarrow> Inr (map (\<lambda>c. PStr [c]) s)
      | _ \<Rightarrow> Inl TypeError)"

text \<open>\<^verbatim>\<open>{**a, **b}\<close> and \<^verbatim>\<open>{**a, k: v}\<close>: a key already present keeps its place and takes the
  new value, a new key goes to the end.\<close>

definition dict_merge :: "(string \<times> 'v) list \<Rightarrow> (string \<times> 'v) list \<Rightarrow> (string \<times> 'v) list" where
  "dict_merge a b = fold (\<lambda>kv. AList.update (fst kv) (snd kv)) b a"

subsection \<open>Rendering integers\<close>

fun str_nat :: "nat \<Rightarrow> string" where
  "str_nat n =
     (if n < 10 then [''0123456789'' ! n]
      else str_nat (n div 10) @ [''0123456789'' ! (n mod 10)])"

declare str_nat.simps [simp del]

text \<open>\<^verbatim>\<open>str(n)\<close> for an \<^verbatim>\<open>int\<close>.\<close>

definition str_int :: "int \<Rightarrow> string" where
  "str_int n = (if n < 0 then CHR ''-'' # str_nat (nat (- n)) else str_nat (nat n))"

text \<open>\<^verbatim>\<open>f"{n:02}"\<close> for a non-negative \<^verbatim>\<open>int\<close>: zero-padded to width 2, never truncated.\<close>

definition format_02 :: "nat \<Rightarrow> string" where
  "format_02 n = replicate (2 - length (str_nat n)) (CHR ''0'') @ str_nat n"

text \<open>\<^verbatim>\<open>f"{x}"\<close> for a cell.\<close>

definition str_cell :: "cell \<Rightarrow> string" where
  "str_cell c = (case c of CNone \<Rightarrow> ''None'' | CStr s \<Rightarrow> s | CInt n \<Rightarrow> str_int n)"

definition cell_val :: "cell \<Rightarrow> pyval" where
  "cell_val c = (case c of CNone \<Rightarrow> PNone | CStr s \<Rightarrow> PStr s | CInt n \<Rightarrow> PInt n)"

text \<open>Reading a decimal numeral back, used to state what the renderings denote.\<close>

definition digit_val :: "char \<Rightarrow> nat option" where
  "digit_val c =
     (if c \<in> set ''0123456789'' then Some (of_char c - 48) else None)"

fun read_nat_acc :: "nat \<Rightarrow> string \<Rightarrow> nat option" where
  "read_nat_acc acc [] = Some acc"
| "read_nat_acc acc (c # cs) =
     (case digit_val c of None \<Rightarrow> None | Some d \<Rightarrow> read_nat_acc (10 * acc + d) cs)"

definition read_nat :: "string \<Rightarrow> nat option" where
  "read_nat s = (if s = [] then None else read_nat_acc 0 s)"

definition read_int :: "string \<Rightarrow> int option" where
  "read_int s =
     (case s of
        [] \<Rightarrow> None
      | c # cs \<Rightarrow>
          if c = CHR ''-'' then map_option (\<lambda>n. - int n) (read_nat cs)
          else map_option int (read_nat s))"



section \<open>Regular expressions: the fragment of Python's \<^verbatim>\<open>re\<close> the resolver's pattern uses\<close>

text \<open>
  The resolver compiles \<^verbatim>\<open>f"^{settlement_name}(?: .+)?$"\<close>. The reference engine covers
  ordinary characters, \<^verbatim>\<open>.\<close> (any character but a line feed), \<^verbatim>\<open>^\<close> (start of the string),
  \<^verbatim>\<open>$\<close> (end of the string, or just before a line feed that ends it), non-capturing
  groups \<^verbatim>\<open>(?:...)\<close> and the greedy quantifiers \<^verbatim>\<open>?\<close>, \<^verbatim>\<open>+\<close>, \<^verbatim>\<open>*\<close>. Everything else
  (classes, escapes, braces, alternation, other groups, a quantifier on a quantifier) is
  reported as outside the fragment.
\<close>

datatype re = Lit char | AnyChar | Bol | Eol | Empty | Cat re re | Opt re | Plus re | Star re

definition newline :: char where
  "newline = CHR 0x0A"

text \<open>A position in the subject: whether nothing has been consumed yet, and what is left.\<close>

type_synonym pos = "bool \<times> string"

definition star_closure :: "(pos \<Rightarrow> pos list) \<Rightarrow> pos \<Rightarrow> pos list" where
  "star_closure step p =
     ((\<lambda>ps. remdups (ps @ concat (map step ps))) ^^ length (snd p)) [p]"

primrec re_step :: "re \<Rightarrow> pos \<Rightarrow> pos list" where
  "re_step (Lit c) =
     (\<lambda>p. case snd p of [] \<Rightarrow> [] | x # xs \<Rightarrow> if x = c then [(False, xs)] else [])"
| "re_step AnyChar =
     (\<lambda>p. case snd p of [] \<Rightarrow> [] | x # xs \<Rightarrow> if x = newline then [] else [(False, xs)])"
| "re_step Bol = (\<lambda>p. if fst p then [p] else [])"
| "re_step Eol = (\<lambda>p. if snd p = [] \<or> snd p = [newline] then [p] else [])"
| "re_step Empty = (\<lambda>p. [p])"
| "re_step (Cat r1 r2) = (\<lambda>p. concat (map (re_step r2) (re_step r1 p)))"
| "re_step (Opt r) = (\<lambda>p. p # re_step r p)"
| "re_step (Plus r) = (\<lambda>p. concat (map (re_step r) (star_closure (re_step r) p)))"
| "re_step (Star r) = (\<lambda>p. star_closure (re_step r) p)"

text \<open>\<^verbatim>\<open>pattern.match(s)\<close>: a match that starts at the beginning of \<open>s\<close>.\<close>

definition re_accepts :: "re \<Rightarrow> string \<Rightarrow> bool" where
  "re_accepts r s = (re_step r (True, s) \<noteq> [])"

datatype parsed = Parsed re | Malformed | Outside

fun re_seq :: "re list \<Rightarrow> re" where
  "re_seq [] = Empty"
| "re_seq (r # rs) = Cat r (re_seq rs)"

definition quantified :: "re \<Rightarrow> bool" where
  "quantified r = (case r of Opt _ \<Rightarrow> True | Plus _ \<Rightarrow> True | Star _ \<Rightarrow> True | _ \<Rightarrow> False)"

definition quantify :: "char \<Rightarrow> re \<Rightarrow> re" where
  "quantify q r = (if q = CHR ''?'' then Opt r else if q = CHR ''+'' then Plus r else Star r)"

text \<open>
  One pass over the pattern: \<open>cur\<close> holds the items of the group being read, last one
  first, \<open>stack\<close> the items of the enclosing groups. A quantifier with nothing before it,
  or right after an anchor, and unbalanced parentheses make the pattern malformed
  (\<^verbatim>\<open>re.error\<close>).
\<close>

fun sre_parse :: "string \<Rightarrow> re list \<Rightarrow> re list list \<Rightarrow> parsed" where
  "sre_parse [] cur stack = (if stack = [] then Parsed (re_seq (rev cur)) else Malformed)"
| "sre_parse (c # cs) cur stack =
     (if c = CHR ''('' then
        (case cs of
           a # b # rest \<Rightarrow>
             if a = CHR ''?'' \<and> b = CHR '':'' then sre_parse rest [] (cur # stack) else Outside
         | _ \<Rightarrow> Outside)
      else if c = CHR '')'' then
        (case stack of
           [] \<Rightarrow> Malformed
         | outer # stack' \<Rightarrow> sre_parse cs (re_seq (rev cur) # outer) stack')
      else if c = CHR ''?'' \<or> c = CHR ''+'' \<or> c = CHR ''*'' then
        (case cur of
           [] \<Rightarrow> Malformed
         | r # cur' \<Rightarrow>
             if r = Bol \<or> r = Eol then Malformed
             else if quantified r then Outside
             else sre_parse cs (quantify c r # cur') stack)
      else if c = CHR ''.'' then sre_parse cs (AnyChar # cur) stack
      else if c = CHR ''^'' then sre_parse cs (Bol # cur) stack
      else if c = CHR ''$'' then sre_parse cs (Eol # cur) stack
      else if c = CHR 0x5C \<or> c \<in> set ''[]{}|'' then Outside
      else sre_parse cs (Lit c # cur) stack)"

text \<open>\<^verbatim>\<open>re.compile(pattern)\<close>: the compiled pattern is kept as its \<^verbatim>\<open>match\<close> predicate.\<close>

definition py_re_compile :: "string \<Rightarrow> error + (string \<Rightarrow> bool)" where
  "py_re_compile pattern =
     (case sre_parse pattern [] [] of
        Parsed r \<Rightarrow> Inr (re_accepts r)
      | Malformed \<Rightarrow> Inl ReError
      | Outside \<Rightarrow> Inl NotModelled)"

section \<open>The program\<close>

subsection \<open>Constants\<close>

definition WorksheetColumns :: "(string \<times> nat) list" where
  "WorksheetColumns =
     [(''COUNTY'', 1), (''SETTLEMENT'', 2), (''STATION_NO'', 3),
      (''NOMINAL_VOTER_COUNT'', 4), (''ACTUAL_VOTER_COUNT'', 5),
      (''BALLOTS_WITHOUT_STAMP'', 6), (''BALLOTS_STAMPED'', 7),
      (''BALLOT_TO_ACTUAL_VOTERS_DIFF'', 8),
      (''INVALID_BALLOTS'', 9), (''VALID_BALLOTS'', 10),
      (''BALLOT_COUNT_MSZP_PARBESZED'', 11), (''BALLOT_COUNT_MKKP'', 12),
      (''BALLOT_COUNT_JOBBIK'', 13), (''BALLOT_COUNT_FIDESZ'', 14),
      (''BALLOT_COUNT_MOMENTUM'', 15), (''BALLOT_COUNT_DK'', 16),
      (''BALLOT_COUNT_MI_HAZANK'', 17), (''BALLOT_COUNT_MUNKASPART'', 18),
      (''BALLOT_COUNT_LMP'', 19)]"

definition COUNTY :: nat where "COUNTY = 1"
definition SETTLEMENT :: nat where "SETTLEMENT = 2"
definition STATION_NO :: nat where "STATION_NO = 3"

definition PARAM_SETTLEMENT_CODE :: string where
  "PARAM_SETTLEMENT_CODE = ''_onkszavazokorieredmenyek_WAR_nvinvrportlet_telepulesKod''"

definition PARAM_COUNTY_CODE :: string where
  "PARAM_COUNTY_CODE = ''_onkszavazokorieredmenyek_WAR_nvinvrportlet_megyeKod''"

definition PARAM_STATION_NO :: string where
  "PARAM_STATION_NO = ''_onkszavazokorieredmenyek_WAR_nvinvrportlet_szavkorSorszam''"

definition API_COMMON_PARAMS :: params where
  "API_COMMON_PARAMS =
     [(''p_p_lifecycle'', PStr ''2''),
      (''p_p_state'', PStr ''maximized''),
      (''p_p_mode'', PStr ''view''),
      (''p_p_cacheability'', PStr ''cacheLevelPage''),
      (''_onkszavazokorieredmenyek_WAR_nvinvrportlet_vlId'', PStr ''294''),
      (''_onkszavazokorieredmenyek_WAR_nvinvrportlet_vltId'', PStr ''687'')]"

definition API_GET_MAP_DATA_PARAMS :: params where
  "API_GET_MAP_DATA_PARAMS =
     dict_merge API_COMMON_PARAMS
       [(''p_p_id'', PStr ''onkszavazokorieredmenyek_WAR_nvinvrportlet''),
        (''p_p_resource_id'', PStr ''resourceIdGetElectionMapData''),
        (''_onkszavazokorieredmenyek_WAR_nvinvrportlet_tabId'', PStr ''tab2'')]"

definition API_SEARCH_PARAMS :: params where
  "API_SEARCH_PARAMS =
     dict_merge API_COMMON_PARAMS
       [(''p_p_id'', PStr ''onkszavazokorok_WAR_nvinvrportlet''),
        (''p_p_resource_id'', PStr ''resourceIdGetTelepulesOrMegye'')]"

subsection \<open>The world outside the program\<close>

text \<open>
  What the program does not contain is a parameter of the model. \<open>search_get\<close> and
  \<open>map_data_get\<close> are the two uses of \<^verbatim>\<open>session.get(API_BASE_URL, params=...)\<close>: given the
  requests sent so far and the parameters of this one, entering the \<^verbatim>\<open>async with\<close> either
  raises or gives a response. \<open>re_compile\<close> is \<^verbatim>\<open>re.compile\<close>, \<open>int_of_str\<close> is \<^verbatim>\<open>int\<close> on a
  \<^verbatim>\<open>str\<close>, \<open>json_loads\<close> is \<^verbatim>\<open>json.loads\<close> on a \<^verbatim>\<open>str\<close>, and \<open>polygon_mapping\<close> is shapely's
  \<^verbatim>\<open>mapping(Polygon(coords))\<close> on the list of coordinate pairs.
\<close>

record env =
  search_get :: "params list \<Rightarrow> params \<Rightarrow> error + response"
  map_data_get :: "params list \<Rightarrow> params \<Rightarrow> error + response"
  re_compile :: "string \<Rightarrow> error + (string \<Rightarrow> bool)"
  int_of_str :: "string \<Rightarrow> error + int"
  json_loads :: "string \<Rightarrow> error + pyval"
  polygon_mapping :: "(pyval \<times> pyval) list \<Rightarrow> error + pyval"

text \<open>The mutable state: \<^verbatim>\<open>SETTLEMENT_CODE_CACHE\<close> and, to speak about remote calls, the
  list of the requests sent so far (oldest first).\<close>

record state =
  cache :: "cell \<rightharpoonup> pyval"
  requests :: "params list"

text \<open>
  A workbook is the list of its worksheets, a worksheet the list of its rows (what
  \<^verbatim>\<open>worksheet.values\<close> yields, header first), a row the tuple of its cells. A
  \<^verbatim>\<open>PollingStation\<close>, a geojson \<^verbatim>\<open>Feature\<close> and a \<^verbatim>\<open>FeatureCollection\<close> are records of the
  fields the program gives them. Logging has no effect on the outcome and is left out.
\<close>

type_synonym row = "cell list"
type_synonym worksheet = "row list"
type_synonym workbook = "worksheet list"

record polling_station =
  api_params :: params
  properties :: "(string \<times> cell) list"

record feature =
  geometry :: "pyval option"
  feature_properties :: "(string \<times> cell) list"

record feature_collection =
  features :: "feature list"

subsection \<open>\<^verbatim>\<open>get_settlement_code\<close>\<close>

definition search_pattern :: "cell \<Rightarrow> string" where
  "search_pattern settlement_name = ''^'' @ str_cell settlement_name @ ''(?: .+)?$''"

text \<open>The condition of the generator expression, for one element of the response:
  \<^verbatim>\<open>re.compile(...)\<close>, then \<^verbatim>\<open>match["telepulesNeve"]\<close>, then \<^verbatim>\<open>.match\<close>, which wants a string.\<close>

definition candidate_matches :: "env \<Rightarrow> cell \<Rightarrow> pyval \<Rightarrow> error + bool" where
  "candidate_matches E settlement_name m =
     (case re_compile E (search_pattern settlement_name) of
        Inl e \<Rightarrow> Inl e
      | Inr matches \<Rightarrow>
          (case py_getitem m ''telepulesNeve'' of
             Inl e \<Rightarrow> Inl e
           | Inr (PStr display) \<Rightarrow> Inr (matches display)
           | Inr _ \<Rightarrow> Inl TypeError))"

text \<open>\<^verbatim>\<open>next(match["telepulesKod"] for match in ... if ...)\<close>.\<close>

fun next_match :: "env \<Rightarrow> cell \<Rightarrow> pyval list \<Rightarrow> error + pyval" where
  "next_match E settlement_name [] = Inl StopIteration"
| "next_match E settlement_name (m # ms) =
     (case candidate_matches E settlement_name m of
        Inl e \<Rightarrow> Inl e
      | Inr True \<Rightarrow> py_getitem m ''telepulesKod''
      | Inr False \<Rightarrow> next_match E settlement_name ms)"

text \<open>The body of the \<^verbatim>\<open>try\<close> of lines 100 to 106, up to the value of \<open>settlement_code\<close>.\<close>

definition select_code :: "env \<Rightarrow> cell \<Rightarrow> response \<Rightarrow> error + pyval" where
  "select_code E settlement_name response =
     and_then response (\<lambda>body.
     and_then (py_iter body) (\<lambda>candidates.
     next_match E settlement_name candidates))"

definition search_params :: "cell \<Rightarrow> params" where
  "search_params settlement_name =
     dict_merge API_SEARCH_PARAMS
       [(''_onkszavazokorok_WAR_nvinvrportlet_keywords'', cell_val settlement_name)]"

definition get_settlement_code :: "env \<Rightarrow> cell \<Rightarrow> state \<Rightarrow> (error + pyval) \<times> state" where
  "get_settlement_code E settlement_name s =
     (case cache s settlement_name of
        Some code \<Rightarrow> (Inr code, s)
      | None \<Rightarrow>
          (let params = search_params settlement_name;
               s1 = s\<lparr>requests := requests s @ [params]\<rparr>
           in case search_get E (requests s) params of
                Inl e \<Rightarrow> (Inl e, s1)
              | Inr response \<Rightarrow>
                  (case select_code E settlement_name response of
                     Inr settlement_code \<Rightarrow>
                       (Inr settlement_code,
                        s1\<lparr>cache := (cache s1)(settlement_name \<mapsto> settlement_code)\<rparr>)
                   | Inl e \<Rightarrow> (Inl (ResolutionError settlement_name e params), s1))))"

subsection \<open>\<^verbatim>\<open>polling_stations\<close>\<close>

text \<open>\<^verbatim>\<open>int(x)\<close> for a cell.\<close>

definition py_int :: "env \<Rightarrow> cell \<Rightarrow> error + int" where
  "py_int E c = (case c of CNone \<Rightarrow> Inl TypeError | CInt n \<Rightarrow> Inr n | CStr t \<Rightarrow> int_of_str E t)"

text \<open>\<^verbatim>\<open>{field.name: row[field.value] for field in [*WorksheetColumns]}\<close>.\<close>

definition row_properties :: "row \<Rightarrow> error + (string \<times> cell) list" where
  "row_properties row =
     traverse (\<lambda>field. and_then (py_index row (snd field)) (\<lambda>v. Inr (fst field, v)))
       WorksheetColumns"

text \<open>
  One turn of the inner loop, lines 125 to 144: \<open>Inr None\<close> is \<^verbatim>\<open>continue\<close>,
  \<open>Inr (Some ps)\<close> is the record that is yielded, \<open>Inl e\<close> an exception that leaves the
  generator.
\<close>

definition polling_stations_row ::
    "env \<Rightarrow> nat \<Rightarrow> row \<Rightarrow> state \<Rightarrow> (error + polling_station option) \<times> state" where
  "polling_stations_row E county_index row s =
     (case py_index row 0 of
        Inl e \<Rightarrow> (Inl e, s)
      | Inr first \<Rightarrow>
          if first = CNone then (Inr None, s)
          else
            (case and_then (py_index row STATION_NO) (py_int E) of
               Inl e \<Rightarrow> (Inl e, s)
             | Inr n \<Rightarrow>
                 (let station_no = str_int n;
                      county_code = format_02 (county_index + 1)
                  in case py_index row SETTLEMENT of
                       Inl e \<Rightarrow> (Inl e, s)
                     | Inr name \<Rightarrow>
                         (case get_settlement_code E name s of
                            (Inl e, s1) \<Rightarrow> (Inl e, s1)
                          | (Inr settlement_code, s1) \<Rightarrow>
                              (case row_properties row of
                                 Inl e \<Rightarrow> (Inl e, s1)
                               | Inr props \<Rightarrow>
                                   (Inr (Some
                                      \<lparr>api_params =
                                         [(PARAM_STATION_NO, PStr station_no),
                                          (PARAM_SETTLEMENT_CODE, settlement_code),
                                          (PARAM_COUNTY_CODE, PStr county_code)],
                                       properties = props\<rparr>), s1))))))"

text \<open>
  The generator is modelled with its consumer: \<open>body\<close> is what the \<^verbatim>\<open>async for\<close> that
  drives the generator does with each record yielded, between two turns of the inner
  loop. An exception of the generator or of the body ends the iteration.
\<close>

fun for_rows ::
    "env \<Rightarrow> (polling_station \<Rightarrow> state \<Rightarrow> (error + 'a) \<times> state) \<Rightarrow> nat \<Rightarrow> row list \<Rightarrow> state
      \<Rightarrow> (error + 'a list) \<times> state" where
  "for_rows E body county_index [] s = (Inr [], s)"
| "for_rows E body county_index (row # rows) s =
     (case polling_stations_row E county_index row s of
        (Inl e, s1) \<Rightarrow> (Inl e, s1)
      | (Inr None, s1) \<Rightarrow> for_rows E body county_index rows s1
      | (Inr (Some ps), s1) \<Rightarrow>
          (case body ps s1 of
             (Inl e, s2) \<Rightarrow> (Inl e, s2)
           | (Inr x, s2) \<Rightarrow>
               (case for_rows E body county_index rows s2 of
                  (Inl e, s3) \<Rightarrow> (Inl e, s3)
                | (Inr xs, s3) \<Rightarrow> (Inr (x # xs), s3))))"

text \<open>The outer loop over \<^verbatim>\<open>enumerate(workbook.worksheets)\<close>; \<^verbatim>\<open>_, *rows = worksheet.values\<close>
  raises ValueError on a sheet without any row.\<close>

fun for_worksheets ::
    "env \<Rightarrow> (polling_station \<Rightarrow> state \<Rightarrow> (error + 'a) \<times> state) \<Rightarrow> nat \<Rightarrow> workbook \<Rightarrow> state
      \<Rightarrow> (error + 'a list) \<times> state" where
  "for_worksheets E body county_index [] s = (Inr [], s)"
| "for_worksheets E body county_index (worksheet # worksheets) s =
     (case worksheet of
        [] \<Rightarrow> (Inl ValueError, s)
      | header # rows \<Rightarrow>
          (case for_rows E body county_index rows s of
             (Inl e, s1) \<Rightarrow> (Inl e, s1)
           | (Inr xs, s1) \<Rightarrow>
               (case for_worksheets E body (Suc county_index) worksheets s1 of
                  (Inl e, s2) \<Rightarrow> (Inl e, s2)
                | (Inr ys, s2) \<Rightarrow> (Inr (xs @ ys), s2))))"

definition polling_stations ::
    "env \<Rightarrow> (polling_station \<Rightarrow> state \<Rightarrow> (error + 'a) \<times> state) \<Rightarrow> workbook \<Rightarrow> state
      \<Rightarrow> (error + 'a list) \<times> state" where
  "polling_stations E body workbook s = for_worksheets E body 0 workbook s"

text \<open>The records the generator yields when it is drained by a consumer that does nothing
  else.\<close>

definition yield_only :: "polling_station \<Rightarrow> state \<Rightarrow> (error + polling_station) \<times> state" where
  "yield_only ps s = (Inr ps, s)"

subsection \<open>\<^verbatim>\<open>fetch_polling_station_geometries\<close> and \<^verbatim>\<open>run\<close>\<close>

definition py_json_loads :: "env \<Rightarrow> pyval \<Rightarrow> error + pyval" where
  "py_json_loads E v = (case v of PStr text \<Rightarrow> json_loads E text | _ \<Rightarrow> Inl TypeError)"

text \<open>\<^verbatim>\<open>(point["lng"], point["lat"])\<close>.\<close>

definition lng_lat :: "pyval \<Rightarrow> error + (pyval \<times> pyval)" where
  "lng_lat point =
     and_then (py_getitem point ''lng'') (\<lambda>lng.
     and_then (py_getitem point ''lat'') (\<lambda>lat. Inr (lng, lat)))"

text \<open>The body of the \<^verbatim>\<open>try\<close> of lines 164 to 168.\<close>

definition read_geometry :: "env \<Rightarrow> response \<Rightarrow> error + pyval" where
  "read_geometry E response =
     and_then response (\<lambda>data.
     and_then (py_getitem data ''polygon'') (\<lambda>polygon.
     and_then (py_getitem polygon ''paths'') (\<lambda>encoded.
     and_then (py_json_loads E encoded) (\<lambda>paths.
     and_then (py_iter paths) (\<lambda>points.
     and_then (traverse lng_lat points) (polygon_mapping E))))))"

definition map_data_params :: "polling_station \<Rightarrow> params" where
  "map_data_params ps = dict_merge API_GET_MAP_DATA_PARAMS (api_params ps)"

text \<open>
  The body of the \<^verbatim>\<open>async for\<close> of lines 156 to 182 for one record. The \<^verbatim>\<open>try\<close> starts
  inside \<^verbatim>\<open>async with session.get(...) as response\<close>: what entering the request raises is
  not caught, what the body of the \<^verbatim>\<open>try\<close> raises makes the geometry \<^verbatim>\<open>None\<close>.
\<close>

definition fetch_geometry :: "env \<Rightarrow> polling_station \<Rightarrow> state \<Rightarrow> (error + feature) \<times> state" where
  "fetch_geometry E ps s =
     (let params = map_data_params ps;
          s1 = s\<lparr>requests := requests s @ [params]\<rparr>
      in case map_data_get E (requests s) params of
           Inl e \<Rightarrow> (Inl e, s1)
         | Inr response \<Rightarrow>
             (Inr \<lparr>geometry = (case read_geometry E response of
                                 Inl exc \<Rightarrow> None
                               | Inr g \<Rightarrow> Some g),
                   feature_properties = properties ps\<rparr>, s1))"

definition fetch_polling_station_geometries ::
    "env \<Rightarrow> workbook \<Rightarrow> state \<Rightarrow> (error + feature list) \<times> state" where
  "fetch_polling_station_geometries E workbook s =
     polling_stations E (fetch_geometry E) workbook s"

text \<open>\<^verbatim>\<open>run\<close>: \<open>Inr\<close> is the document printed, \<open>Inl\<close> the exception that ends the program with
  nothing printed.\<close>

definition run :: "env \<Rightarrow> workbook \<Rightarrow> state \<Rightarrow> (error + feature_collection) \<times> state" where
  "run E workbook s =
     (case fetch_polling_station_geometries E workbook s of
        (Inl e, s1) \<Rightarrow> (Inl e, s1)
      | (Inr fs, s1) \<Rightarrow> (Inr \<lparr>features = fs\<rparr>, s1))"

definition initial_state :: state where
  "initial_state = \<lparr>cache = Map.empty, requests = []\<rparr>"

section \<open>Notions used to state the properties\<close>

text \<open>A row the adapter skips: its first positional cell is \<^verbatim>\<open>None\<close>.\<close>

definition skipped :: "row \<Rightarrow> bool" where
  "skipped row = (py_index row 0 = Inr CNone)"

text \<open>The data rows of a workbook in source order: sheet by sheet, header dropped.\<close>

definition data_rows :: "workbook \<Rightarrow> row list" where
  "data_rows workbook = concat (map tl workbook)"



text \<open>A consumer that also hands back the record it was given, to tell which record a
  result was made from.\<close>

definition tagged ::
    "(polling_station \<Rightarrow> state \<Rightarrow> (error + 'a) \<times> state)
      \<Rightarrow> polling_station \<Rightarrow> state \<Rightarrow> (error + polling_station \<times> 'a) \<times> state" where
  "tagged body ps s =
     (case body ps s of (Inl e, s1) \<Rightarrow> (Inl e, s1) | (Inr x, s1) \<Rightarrow> (Inr (ps, x), s1))"

text \<open>The states a run can be in after a given one: the cache and the list of requests
  change through \<open>get_settlement_code\<close> and \<open>fetch_geometry\<close> only.\<close>

inductive later :: "env \<Rightarrow> state \<Rightarrow> state \<Rightarrow> bool" for E :: env where
  later_refl: "later E s s"
| later_resolve: "later E s s1 \<Longrightarrow> get_settlement_code E name s1 = (r, s2) \<Longrightarrow> later E s s2"
| later_fetch: "later E s s1 \<Longrightarrow> fetch_geometry E ps s1 = (f, s2) \<Longrightarrow> later E s s2"



text \<open>The matching rule in the words of the specification: the display name is the
  settlement name, or the settlement name, a space and a non-empty suffix.\<close>

definition name_matches :: "string \<Rightarrow> string \<Rightarrow> bool" where
  "name_matches name display =
     (display = name \<or>
      (length name + 1 < length display \<and> take (length name + 1) display = name @ '' ''))"

definition metachar :: "char \<Rightarrow> bool" where
  "metachar c = (c = CHR 0x5C \<or> c \<in> set ''.^$*+?{}[]|()'')"

text \<open>A candidate of the search response, and a response body made of candidates.\<close>

definition candidate :: "string \<times> pyval \<Rightarrow> pyval" where
  "candidate dc = PDict [(''telepulesNeve'', PStr (fst dc)), (''telepulesKod'', snd dc)]"

definition first_code :: "string \<Rightarrow> (string \<times> pyval) list \<Rightarrow> pyval option" where
  "first_code name cands = map_option snd (find (\<lambda>dc. name_matches name (fst dc)) cands)"

text \<open>The environment's \<^verbatim>\<open>re.compile\<close> agrees with the reference engine on the patterns
  of the fragment.\<close>

definition python_re :: "env \<Rightarrow> bool" where
  "python_re E =
     (\<forall>pattern r. sre_parse pattern [] [] = Parsed r \<longrightarrow> re_compile E pattern = Inr (re_accepts r))"

subsection \<open>Reference collaborators\<close>

text \<open>\<^verbatim>\<open>int\<close> on a string of decimal digits with an optional minus sign; other strings are
  left to the environment.\<close>

definition py_int_of_str :: "string \<Rightarrow> error + int" where
  "py_int_of_str t = (case read_int t of Some n \<Rightarrow> Inr n | None \<Rightarrow> Inl NotModelled)"

definition as_float :: "pyval \<Rightarrow> error + real" where
  "as_float v = (case v of PInt n \<Rightarrow> Inr (of_int n) | PFloat x \<Rightarrow> Inr x | _ \<Rightarrow> Inl TypeError)"

definition close_ring :: "'a list \<Rightarrow> 'a list" where
  "close_ring ps = (if hd ps = last ps then ps else ps @ [hd ps])"

text \<open>
  A stand-in for shapely's \<^verbatim>\<open>mapping(Polygon(coords))\<close>, a library call whose code is not
  part of the source: the exterior ring is the given sequence of points, closed by
  repeating the first point when the last one differs. One or two points, or a closed
  ring of fewer than four, raise ValueError. An empty sequence raises nothing: it gives
  the empty polygon, whose mapping has no coordinates.
\<close>

definition shapely_polygon_mapping :: "(pyval \<times> pyval) list \<Rightarrow> error + pyval" where
  "shapely_polygon_mapping coords =
     (case traverse (\<lambda>xy. and_then (as_float (fst xy)) (\<lambda>x.
                            and_then (as_float (snd xy)) (\<lambda>y. Inr (x, y)))) coords of
        Inl e \<Rightarrow> Inl e
      | Inr ps \<Rightarrow>
          if ps = [] then Inr (PDict [(''type'', PStr ''Polygon''), (''coordinates'', PList [])])
          else if length (close_ring ps) < 4 then Inl ValueError
          else Inr (PDict
                 [(''type'', PStr ''Polygon''),
                  (''coordinates'',
                     PList [PList (map (\<lambda>p. PList [PFloat (fst p), PFloat (snd p)])
                                       (close_ring ps))])]))"

definition reference_env ::
    "(params list \<Rightarrow> params \<Rightarrow> error + response) \<Rightarrow> (params list \<Rightarrow> params \<Rightarrow> error + response)
      \<Rightarrow> (string \<Rightarrow> error + pyval) \<Rightarrow> env" where
  "reference_env search map_data loads =
     \<lparr>search_get = search, map_data_get = map_data, re_compile = py_re_compile,
      int_of_str = py_int_of_str, json_loads = loads,
      polygon_mapping = shapely_polygon_mapping\<rparr>"

text \<open>A search service that knows the given settlements: asked for the keyword \<open>k\<close>, it
  answers with the candidates listed under \<open>k\<close> (none when \<open>k\<close> is unknown).\<close>

definition search_service ::
    "(string \<times> (string \<times> pyval) list) list \<Rightarrow> params list \<Rightarrow> params \<Rightarrow> error + response" where
  "search_service known h q =
     (case map_of q ''_onkszavazokorok_WAR_nvinvrportlet_keywords'' of
        Some (PStr k) \<Rightarrow>
          (case map_of known k of
             Some cands \<Rightarrow> Inr (Inr (PList (map candidate cands)))
           | None \<Rightarrow> Inr (Inr (PList [])))
      | _ \<Rightarrow> Inl (ClientError ''bad request''))"

text \<open>A map service that knows the stations listed by settlement code, county code and
  station number, and answers with the JSON-encoded list of points stored for them.\<close>

definition map_service ::
    "((pyval \<times> string \<times> string) \<times> string) list \<Rightarrow> params list \<Rightarrow> params \<Rightarrow> error + response" where
  "map_service known h q =
     (case (map_of q PARAM_SETTLEMENT_CODE, map_of q PARAM_COUNTY_CODE, map_of q PARAM_STATION_NO) of
        (Some code, Some (PStr county), Some (PStr station)) \<Rightarrow>
          (case map_of known (code, county, station) of
             Some encoded \<Rightarrow> Inr (Inr (PDict [(''polygon'', PDict [(''paths'', PStr encoded)])]))
           | None \<Rightarrow> Inr (Inr (PDict [])))
      | _ \<Rightarrow> Inl (ClientError ''bad request''))"

definition point :: "real \<Rightarrow> real \<Rightarrow> pyval" where
  "point lat lng = PDict [(''lat'', PFloat lat), (''lng'', PFloat lng)]"

subsection \<open>A small world: one settlement, one station\<close>

definition szeged_paths :: string where
  \<open>szeged_paths =
     ''[{"lat": 46.0, "lng": 20.0}, {"lat": 46.1, "lng": 20.1}, {"lat": 46.0, "lng": 20.2}]''\<close>

definition szeged_loads :: "string \<Rightarrow> error + pyval" where
  "szeged_loads t =
     (if t = szeged_paths
      then Inr (PList [point 46.0 20.0, point 46.1 20.1, point 46.0 20.2])
      else Inl JSONDecodeError)"

definition szeged_env :: env where
  "szeged_env =
     reference_env
       (search_service [(''Szeged'', [(''Szeged'', PStr ''123'')])])
       (map_service [((PStr ''123'', ''01'', ''1''), szeged_paths)])
       szeged_loads"

definition szeged_cells :: "cell list" where
  "szeged_cells = [CStr ''Pest'', CStr ''Szeged'', CInt 1] @ replicate 16 (CInt 5)"

definition szeged_row :: "cell \<Rightarrow> row" where
  "szeged_row first = first # szeged_cells"

definition szeged_properties :: "(string \<times> cell) list" where
  "szeged_properties =
     [(''COUNTY'', CStr ''Pest''), (''SETTLEMENT'', CStr ''Szeged''),
      (''STATION_NO'', CInt 1), (''NOMINAL_VOTER_COUNT'', CInt 5),
      (''ACTUAL_VOTER_COUNT'', CInt 5), (''BALLOTS_WITHOUT_STAMP'', CInt 5),
      (''BALLOTS_STAMPED'', CInt 5), (''BALLOT_TO_ACTUAL_VOTERS_DIFF'', CInt 5),
      (''INVALID_BALLOTS'', CInt 5), (''VALID_BALLOTS'', CInt 5),
      (''BALLOT_COUNT_MSZP_PARBESZED'', CInt 5), (''BALLOT_COUNT_MKKP'', CInt 5),
      (''BALLOT_COUNT_JOBBIK'', CInt 5), (''BALLOT_COUNT_FIDESZ'', CInt 5),
      (''BALLOT_COUNT_MOMENTUM'', CInt 5), (''BALLOT_COUNT_DK'', CInt 5),
      (''BALLOT_COUNT_MI_HAZANK'', CInt 5), (''BALLOT_COUNT_MUNKASPART'', CInt 5),
      (''BALLOT_COUNT_LMP'', CInt 5)]"

definition szeged_record :: "string \<Rightarrow> polling_station" where
  "szeged_record county_code =
     \<lparr>api_params =
        [(PARAM_STATION_NO, PStr ''1''), (PARAM_SETTLEMENT_CODE, PStr ''123''),
         (PARAM_COUNTY_CODE, PStr county_code)],
      properties = szeged_properties\<rparr>"

definition szeged_polygon :: pyval where
  "szeged_polygon =
     PDict
       [(''type'', PStr ''Polygon''),
        (''coordinates'',
           PList [PList [PList [PFloat 20.0, PFloat 46.0], PList [PFloat 20.1, PFloat 46.1],
                         PList [PFloat 20.2, PFloat 46.0], PList [PFloat 20.0, PFloat 46.0]]])]"

definition szeged_workbook :: workbook where
  "szeged_workbook =
     [[[CStr ''header''], szeged_row (CInt 7)],
      [[CStr ''header''], szeged_row CNone, szeged_row (CInt 8)]]"

definition szeged_features :: "feature list" where
  "szeged_features =
     [\<lparr>geometry = Some szeged_polygon, feature_properties = szeged_properties\<rparr>,
      \<lparr>geometry = None, feature_properties = szeged_properties\<rparr>]"

text \<open>A request that cannot be opened, a map service that cannot be reached for one
  county, and a row whose settlement the search service does not know.\<close>

definition refused :: "params list \<Rightarrow> params \<Rightarrow> error + response" where
  "refused h q = Inl (ClientError ''connection refused'')"


definition atlantis_row :: row where
  "atlantis_row =
     CInt 9 # [CStr ''Nowhere'', CStr ''Atlantis'', CInt 2] @ replicate 16 (CInt 0)"


text \<open>Search services for the matching rule: a settlement name with a dot, display names
  with a line feed, and four candidates for one name.\<close>

definition dotted_env :: env where
  "dotted_env =
     reference_env (search_service [(''A.B'', [(''AXB'', PStr ''1'')])]) refused szeged_loads"

definition loose_env :: env where
  "loose_env =
     reference_env
       (search_service
          [(''B.k'', [(''Bak'', PStr ''7'')]),
           (''Szeged'', [(''Szeged'' @ [newline], PStr ''8'')]),
           (''Tata'', [(''Tata a'' @ newline # ''b'', PStr ''9'')])])
       refused szeged_loads"

definition szeged_candidates :: "(string \<times> pyval) list" where
  "szeged_candidates =
     [(''Szegedinum'', PStr ''1''), (''Nagy Szeged'', PStr ''2''),
      (''Szeged X'', PStr ''3''), (''Szeged'', PStr ''4'')]"

definition anchored_env :: env where
  "anchored_env =
     reference_env (search_service [(''Szeged'', szeged_candidates)]) refused szeged_loads"




section \<open>The settlement-code cache\<close>

lemma get_settlement_code_hit:
  "cache s name = Some code \<Longrightarrow> get_settlement_code E name s = (Inr code, s)"
  by (simp add: get_settlement_code_def)

lemma get_settlement_code_stores:
  "get_settlement_code E name s = (Inr code, s1) \<Longrightarrow> cache s1 name = Some code"
  by (auto simp: get_settlement_code_def Let_def split: option.splits sum.splits)

lemma get_settlement_code_keeps:
  "get_settlement_code E name' s = (r, s1) \<Longrightarrow> cache s name = Some code
    \<Longrightarrow> cache s1 name = Some code"
  by (auto simp: get_settlement_code_def Let_def split: option.splits sum.splits)

lemma fetch_geometry_cache:
  "fetch_geometry E ps s = (r, s1) \<Longrightarrow> cache s1 = cache s"
  by (auto simp: fetch_geometry_def Let_def split: sum.splits)

lemma later_keeps:
  "later E s1 s2 \<Longrightarrow> cache s1 name = Some code \<Longrightarrow> cache s2 name = Some code"
  by (induction rule: later.induct)
     (auto dest: get_settlement_code_keeps simp: fetch_geometry_cache)

text \<open>The states of a run are among the later states of its initial state.\<close>

lemma later_trans: "later E b c \<Longrightarrow> later E a b \<Longrightarrow> later E a c"
  by (induction rule: later.induct) (auto intro: later.intros)

lemma polling_stations_row_later:
  "polling_stations_row E ci row s = (r, s1) \<Longrightarrow> later E s s1"
  by (auto simp: polling_stations_row_def Let_def
      split: sum.splits if_splits prod.splits
      intro: later_refl later_resolve [OF later_refl])

lemma for_rows_later:
  "for_rows E (fetch_geometry E) ci rows s = (r, s1) \<Longrightarrow> later E s s1"
proof (induction rows arbitrary: s r s1)
  case Nil
  then show ?case by (auto intro: later_refl)
next
  case (Cons row rows)
  obtain o1 sa where step: "polling_stations_row E ci row s = (o1, sa)"
    by (cases "polling_stations_row E ci row s")
  then have a: "later E s sa" by (rule polling_stations_row_later)
  show ?case
  proof (cases o1)
    case (Inl e)
    with step Cons.prems a show ?thesis by simp
  next
    case (Inr opt)
    show ?thesis
    proof (cases opt)
      case None
      with Inr step Cons.prems have "for_rows E (fetch_geometry E) ci rows sa = (r, s1)"
        by simp
      then have "later E sa s1" by (rule Cons.IH)
      then show ?thesis using a by (rule later_trans)
    next
      case (Some ps)
      obtain f sb where fetch: "fetch_geometry E ps sa = (f, sb)"
        by (cases "fetch_geometry E ps sa")
      with a have b: "later E s sb" by (rule later_fetch)
      show ?thesis
      proof (cases f)
        case (Inl e)
        with Some Inr step fetch Cons.prems b show ?thesis by simp
      next
        case (Inr x)
        obtain r' sc where rest: "for_rows E (fetch_geometry E) ci rows sb = (r', sc)"
          by (cases "for_rows E (fetch_geometry E) ci rows sb")
        then have "later E sb sc" by (rule Cons.IH)
        then have "later E s sc" using b by (rule later_trans)
        moreover from Some \<open>o1 = Inr opt\<close> step fetch Inr rest Cons.prems have "s1 = sc"
          by (auto split: sum.splits)
        ultimately show ?thesis by simp
      qed
    qed
  qed
qed

lemma for_worksheets_later:
  "for_worksheets E (fetch_geometry E) ci wb s = (r, s1) \<Longrightarrow> later E s s1"
proof (induction wb arbitrary: s r ci s1)
  case Nil
  then show ?case by (auto intro: later_refl)
next
  case (Cons ws wb)
  note IH = Cons.IH and prems = Cons.prems
  show ?case
  proof (cases ws)
    case Nil
    with prems show ?thesis by (auto intro: later_refl)
  next
    case (Cons header rows)
    obtain r' sa where rows: "for_rows E (fetch_geometry E) ci rows s = (r', sa)"
      by (cases "for_rows E (fetch_geometry E) ci rows s")
    then have a: "later E s sa" by (rule for_rows_later)
    show ?thesis
    proof (cases r')
      case (Inl e)
      with Cons rows prems a show ?thesis by simp
    next
      case (Inr xs)
      obtain r'' sb where rest: "for_worksheets E (fetch_geometry E) (Suc ci) wb sa = (r'', sb)"
        by (cases "for_worksheets E (fetch_geometry E) (Suc ci) wb sa")
      then have "later E sa sb" by (rule IH)
      then have "later E s sb" using a by (rule later_trans)
      moreover from Cons rows Inr rest prems have "s1 = sb"
        by (auto split: sum.splits)
      ultimately show ?thesis by simp
    qed
  qed
qed

lemma run_later: "run E wb s = (r, s1) \<Longrightarrow> later E s s1"
  using for_worksheets_later [of E 0 wb s]
  by (auto simp: run_def fetch_polling_station_geometries_def polling_stations_def
      split: prod.splits sum.splits)

lemma szeged_resolves:
  "fst (get_settlement_code szeged_env (CStr ''Szeged'') initial_state) = Inr (PStr ''123'')"
  by code_simp

text \<open>
  C3. Once a settlement name has been resolved, with the code \<open>code\<close> and the state \<open>s1\<close>
  as the outcome, the entry is in the cache of \<open>s1\<close>, and resolving the same name in any
  later state \<open>s2\<close> of the run (after any number of further resolutions and geometry
  requests) returns the same code and leaves the state as it is: in particular the list
  of requests sent does not grow, so no remote call is made.
\<close>

theorem cache_idempotence:
  assumes "get_settlement_code E name s = (Inr code, s1)" and "later E s1 s2"
  shows "cache s1 name = Some code \<and> get_settlement_code E name s2 = (Inr code, s2)"
proof -
  from assms(1) have stored: "cache s1 name = Some code"
    by (rule get_settlement_code_stores)
  with assms(2) have "cache s2 name = Some code"
    by (rule later_keeps)
  then have "get_settlement_code E name s2 = (Inr code, s2)"
    by (rule get_settlement_code_hit)
  with stored show ?thesis by simp
qed

theorem cache_idempotence_witness:
  "get_settlement_code szeged_env (CStr ''Szeged'') initial_state =
     (Inr (PStr ''123''), snd (get_settlement_code szeged_env (CStr ''Szeged'') initial_state)) \<and>
   later szeged_env
     (snd (get_settlement_code szeged_env (CStr ''Szeged'') initial_state))
     (snd (fetch_geometry szeged_env \<lparr>api_params = [], properties = []\<rparr>
            (snd (get_settlement_code szeged_env (CStr ''Szeged'') initial_state)))) \<and>
   cache (snd (get_settlement_code szeged_env (CStr ''Szeged'') initial_state)) (CStr ''Szeged'')
     = Some (PStr ''123'') \<and>
   get_settlement_code szeged_env (CStr ''Szeged'')
     (snd (fetch_geometry szeged_env \<lparr>api_params = [], properties = []\<rparr>
            (snd (get_settlement_code szeged_env (CStr ''Szeged'') initial_state))))
     = (Inr (PStr ''123''),
        snd (fetch_geometry szeged_env \<lparr>api_params = [], properties = []\<rparr>
              (snd (get_settlement_code szeged_env (CStr ''Szeged'') initial_state))))"
proof -
  have first: "get_settlement_code szeged_env (CStr ''Szeged'') initial_state =
      (Inr (PStr ''123''), snd (get_settlement_code szeged_env (CStr ''Szeged'') initial_state))"
    using szeged_resolves by (simp add: prod_eq_iff)
  have after: "later szeged_env
      (snd (get_settlement_code szeged_env (CStr ''Szeged'') initial_state))
      (snd (fetch_geometry szeged_env \<lparr>api_params = [], properties = []\<rparr>
             (snd (get_settlement_code szeged_env (CStr ''Szeged'') initial_state))))"
    by (rule later_fetch [OF later_refl]) (rule prod.collapse [symmetric])
  from cache_idempotence [OF first after] first after show ?thesis by simp
qed

section \<open>Decimal renderings\<close>
















lemma format_02_examples:
  "format_02 1 = ''01''" "format_02 3 = ''03''" "format_02 12 = ''12''" "format_02 123 = ''123''"
  by (simp_all add: format_02_def str_nat.simps)

section \<open>The record source adapter and the order of the output\<close>

lemma polling_stations_row_skip:
  "(polling_stations_row E ci row s = (Inr None, s1)) = (skipped row \<and> s1 = s)"
  by (auto simp: polling_stations_row_def skipped_def Let_def split: sum.splits prod.splits)

lemma polling_stations_row_record:
  "polling_stations_row E ci row s = (Inr (Some ps), s1)
    \<Longrightarrow> \<not> skipped row \<and> row_properties row = Inr (properties ps)"
  by (auto simp: polling_stations_row_def skipped_def Let_def
      split: sum.splits prod.splits if_splits)

lemma tagged_Inr:
  "(tagged body ps s = (Inr px, s1)) = (\<exists>x. body ps s = (Inr x, s1) \<and> px = (ps, x))"
  by (auto simp: tagged_def split: prod.splits sum.splits)

lemma for_rows_tagged:
  "for_rows E body ci rows s =
     (case for_rows E (tagged body) ci rows s of
        (Inl e, s1) \<Rightarrow> (Inl e, s1)
      | (Inr pxs, s1) \<Rightarrow> (Inr (map snd pxs), s1))"
  by (induction rows arbitrary: s)
     (auto simp: tagged_def split: prod.splits sum.splits option.splits)

lemma for_rows_records:
  "for_rows E (tagged body) ci rows s = (Inr pxs, s1)
    \<Longrightarrow> map (\<lambda>px. Inr (properties (fst px))) pxs =
        map row_properties (filter (\<lambda>r. \<not> skipped r) rows)"
proof (induction rows arbitrary: s pxs)
  case Nil
  then show ?case by simp
next
  case (Cons row rows)
  obtain r s' where step: "polling_stations_row E ci row s = (r, s')"
    by (cases "polling_stations_row E ci row s")
  show ?case
  proof (cases r)
    case (Inl e)
    with step Cons.prems show ?thesis by simp
  next
    case (Inr opt)
    show ?thesis
    proof (cases opt)
      case None
      with Inr step have "skipped row" and "s' = s"
        using polling_stations_row_skip by blast+
      with None Inr step Cons show ?thesis by simp
    next
      case (Some ps)
      with Inr step have row: "\<not> skipped row" "row_properties row = Inr (properties ps)"
        using polling_stations_row_record by blast+
      from Some Inr step Cons.prems obtain px s2 pxs' where
        "tagged body ps s' = (Inr px, s2)" "for_rows E (tagged body) ci rows s2 = (Inr pxs', s1)"
        "pxs = px # pxs'"
        by (auto split: prod.splits sum.splits)
      then obtain x where
        "for_rows E (tagged body) ci rows s2 = (Inr pxs', s1)" "pxs = (ps, x) # pxs'"
        by (auto simp: tagged_Inr)
      with Cons.IH row show ?thesis by simp
    qed
  qed
qed

lemma for_worksheets_tagged:
  "for_worksheets E body ci wb s =
     (case for_worksheets E (tagged body) ci wb s of
        (Inl e, s1) \<Rightarrow> (Inl e, s1)
      | (Inr pxs, s1) \<Rightarrow> (Inr (map snd pxs), s1))"
proof (induction wb arbitrary: s ci)
  case Nil
  then show ?case by simp
next
  case (Cons ws wb)
  note IH = Cons.IH
  show ?case
  proof (cases ws)
    case Nil
    then show ?thesis by simp
  next
    case (Cons header rows)
    then show ?thesis
      using IH for_rows_tagged [of E body ci rows s]
      by (simp split: prod.splits sum.splits)
  qed
qed

lemma for_worksheets_records:
  "for_worksheets E (tagged body) ci wb s = (Inr pxs, s1)
    \<Longrightarrow> map (\<lambda>px. Inr (properties (fst px))) pxs =
        map row_properties (filter (\<lambda>r. \<not> skipped r) (data_rows wb))"
proof (induction wb arbitrary: s ci pxs)
  case Nil
  then show ?case by (simp add: data_rows_def)
next
  case (Cons ws wb)
  from Cons.prems obtain header rows where ws: "ws = header # rows"
    by (cases ws) auto
  with Cons.prems obtain xs s' ys where
    rows: "for_rows E (tagged body) ci rows s = (Inr xs, s')" and
    rest: "for_worksheets E (tagged body) (Suc ci) wb s' = (Inr ys, s1)" and
    pxs: "pxs = xs @ ys"
    by (auto split: prod.splits sum.splits)
  from for_rows_records [OF rows] Cons.IH [OF rest] pxs ws show ?case
    by (simp add: data_rows_def)
qed

lemma for_rows_results:
  assumes "for_rows E (tagged body) ci rows s = (Inr pxs, s1)"
    and "\<And>ps x sa sb. body ps sa = (Inr x, sb) \<Longrightarrow> P ps x"
  shows "list_all (\<lambda>px. P (fst px) (snd px)) pxs"
  using assms(1)
proof (induction rows arbitrary: s pxs)
  case Nil
  then show ?case by simp
next
  case (Cons row rows)
  obtain r s' where step: "polling_stations_row E ci row s = (r, s')"
    by (cases "polling_stations_row E ci row s")
  show ?case
  proof (cases r)
    case (Inl e)
    with step Cons.prems show ?thesis by simp
  next
    case (Inr opt)
    show ?thesis
    proof (cases opt)
      case None
      with Inr step Cons show ?thesis by simp
    next
      case (Some ps)
      with Inr step Cons.prems obtain px s2 pxs' where
        "tagged body ps s' = (Inr px, s2)" "for_rows E (tagged body) ci rows s2 = (Inr pxs', s1)"
        "pxs = px # pxs'"
        by (auto split: prod.splits sum.splits)
      with Cons.IH assms(2) show ?thesis by (auto simp: tagged_Inr)
    qed
  qed
qed

lemma for_worksheets_results:
  assumes "for_worksheets E (tagged body) ci wb s = (Inr pxs, s1)"
    and "\<And>ps x sa sb. body ps sa = (Inr x, sb) \<Longrightarrow> P ps x"
  shows "list_all (\<lambda>px. P (fst px) (snd px)) pxs"
  using assms(1)
proof (induction wb arbitrary: s ci pxs)
  case Nil
  then show ?case by simp
next
  case (Cons ws wb)
  from Cons.prems obtain header rows where ws: "ws = header # rows"
    by (cases ws) auto
  with Cons.prems obtain xs s' ys where
    rows: "for_rows E (tagged body) ci rows s = (Inr xs, s')" and
    rest: "for_worksheets E (tagged body) (Suc ci) wb s' = (Inr ys, s1)" and
    pxs: "pxs = xs @ ys"
    by (auto split: prod.splits sum.splits)
  from for_rows_results [OF rows assms(2)] Cons.IH [OF rest] pxs show ?case
    by simp
qed

lemma for_worksheets_untag:
  assumes "for_worksheets E body ci wb s = (Inr xs, s1)"
  obtains pxs where "for_worksheets E (tagged body) ci wb s = (Inr pxs, s1)" "xs = map snd pxs"
  using assms
  by (subst (asm) for_worksheets_tagged) (auto split: prod.splits sum.splits)


lemma for_worksheets_append:
  "for_worksheets E body ci (xs @ ys) s =
     (case for_worksheets E body ci xs s of
        (Inl e, s1) \<Rightarrow> (Inl e, s1)
      | (Inr as, s1) \<Rightarrow>
          (case for_worksheets E body (ci + length xs) ys s1 of
             (Inl e, s2) \<Rightarrow> (Inl e, s2)
           | (Inr bs, s2) \<Rightarrow> (Inr (as @ bs), s2)))"
  by (induction xs arbitrary: s ci) (auto split: prod.splits sum.splits list.splits)

lemma row_properties_first: "row_properties (a # rest) = row_properties (b # rest)"
  by (simp add: row_properties_def WorksheetColumns_def py_index_def and_then_def)

lemma polling_stations_row_first:
  "a \<noteq> CNone \<Longrightarrow> b \<noteq> CNone
    \<Longrightarrow> polling_stations_row E ci (a # rest) s = polling_stations_row E ci (b # rest) s"
proof -
  assume ab: "a \<noteq> CNone" "b \<noteq> CNone"
  have idx: "py_index (a # rest) STATION_NO = py_index (b # rest) STATION_NO"
    "py_index (a # rest) SETTLEMENT = py_index (b # rest) SETTLEMENT"
    by (simp_all add: py_index_def STATION_NO_def SETTLEMENT_def)
  have zero: "py_index (a # rest) 0 = Inr a" "py_index (b # rest) 0 = Inr b"
    by (simp_all add: py_index_def)
  show ?thesis
    unfolding polling_stations_row_def zero idx row_properties_first [of a rest b]
    using ab by simp
qed

lemma szeged_row_empty_string:
  "fst (polling_stations_row szeged_env 0 (CStr [] # szeged_cells) initial_state) =
     Inr (Some (szeged_record ''01''))"
  by code_simp

text \<open>
  C9. A row is skipped exactly when its first positional cell is \<^verbatim>\<open>None\<close>. A row whose first
  cell is the empty string is not skipped: it is processed exactly like the same row with
  any other first cell that is not \<^verbatim>\<open>None\<close> (station number, settlement code and
  properties are computed, and a record is yielded unless one of these steps raises).
\<close>

theorem only_none_first_cell_skips:
  "(polling_stations_row E ci (first # rest) s = (Inr None, s1)) = (first = CNone \<and> s1 = s) \<and>
   polling_stations_row E ci (CStr [] # rest) s \<noteq> (Inr None, s1) \<and>
   (first \<noteq> CNone \<longrightarrow>
      polling_stations_row E ci (CStr [] # rest) s = polling_stations_row E ci (first # rest) s)"
  using polling_stations_row_first [of "CStr []" first E ci rest s]
  by (simp add: polling_stations_row_skip skipped_def py_index_def)

theorem only_none_first_cell_skips_witness:
  "CInt 7 \<noteq> CNone \<and>
   polling_stations_row szeged_env 0 (CStr [] # szeged_cells) initial_state =
     polling_stations_row szeged_env 0 (CInt 7 # szeged_cells) initial_state \<and>
   fst (polling_stations_row szeged_env 0 (CStr [] # szeged_cells) initial_state) =
     Inr (Some (szeged_record ''01''))"
  using only_none_first_cell_skips [of szeged_env 0 "CInt 7" szeged_cells initial_state]
    szeged_row_empty_string
  by simp

lemma szeged_sheet_empty_string:
  "fst (polling_stations szeged_env yield_only
         [[[CStr ''header''], szeged_row (CStr [])]] initial_state)
   = Inr [szeged_record ''01'']"
  by code_simp

lemma szeged_sheet_abort:
  "fst (polling_stations szeged_env yield_only
         [[[CStr ''header''], szeged_row CNone, atlantis_row]] initial_state)
   = Inl (ResolutionError (CStr ''Atlantis'') StopIteration (search_params (CStr ''Atlantis'')))"
  by code_simp

lemma szeged_first_sheet:
  "fst (for_worksheets szeged_env (tagged yield_only) 0
         [[[CStr ''header''], szeged_row (CInt 7)]] initial_state)
   = Inr [(szeged_record ''01'', szeged_record ''01'')]"
  by code_simp

lemma szeged_second_sheet:
  "fst (for_rows szeged_env (tagged yield_only) 1 [szeged_row CNone, szeged_row (CInt 8)]
         (snd (for_worksheets szeged_env (tagged yield_only) 0
                [[[CStr ''header''], szeged_row (CInt 7)]] initial_state)))
   = Inr [(szeged_record ''02'', szeged_record ''02'')]"
  by code_simp

text \<open>
  C6, as stated, fails in two ways. A sheet with one data row (N = 1) whose first cell is
  empty, namely the empty string, yields one record and not N - 1 = 0. A sheet with two
  data rows (N = 2), the first with \<^verbatim>\<open>None\<close> as its first cell and the second with a
  settlement the search service does not know, yields no record at all and not
  N - 1 = 1: the adapter ends with the exception of the resolver.
\<close>

theorem empty_string_row_counterexample:
  "py_index (szeged_row (CStr [])) 0 = Inr (CStr []) \<and>
   length [szeged_row (CStr [])] - 1 = 0 \<and>
   fst (polling_stations szeged_env yield_only
          [[[CStr ''header''], szeged_row (CStr [])]] initial_state)
     = Inr [szeged_record ''01''] \<and>
   length [szeged_record ''01''] = 1 \<and>
   length (filter skipped [szeged_row CNone, atlantis_row]) = 1 \<and>
   length [szeged_row CNone, atlantis_row] - 1 = 1 \<and>
   fst (polling_stations szeged_env yield_only
          [[[CStr ''header''], szeged_row CNone, atlantis_row]] initial_state)
     = Inl (ResolutionError (CStr ''Atlantis'') StopIteration
              (search_params (CStr ''Atlantis'')))"
  using szeged_sheet_empty_string szeged_sheet_abort
  by (simp add: py_index_def szeged_row_def skipped_def atlantis_row_def)

text \<open>
  C6, amended. For every sheet of N data rows (after the discarded header) in which
  exactly one row has a null (\<^verbatim>\<open>None\<close>) first positional cell, and which the adapter
  reaches and reads without an exception, the adapter emits exactly N - 1 enriched
  records for this sheet, one per retained row, preserving the relative order of the
  remaining rows; a row with a null first cell is skipped entirely with no record
  emitted. The sheet stands anywhere in the workbook: its records follow those of the
  sheets before it and precede those of the sheets after it.
\<close>

theorem null_first_cell_rows_skipped:
  assumes "for_worksheets E (tagged body) 0 sheets_before s = (Inr xs, sa)"
    and "for_rows E (tagged body) (length sheets_before) rows sa = (Inr ys, sb)"
    and "length (filter skipped rows) = 1"
  shows "length ys = length rows - 1 \<and>
         map (\<lambda>px. Inr (properties (fst px))) ys =
           map row_properties (filter (\<lambda>r. \<not> skipped r) rows) \<and>
         polling_stations E (tagged body) (sheets_before @ (header # rows) # sheets_after) s =
           (case for_worksheets E (tagged body) (Suc (length sheets_before)) sheets_after sb of
              (Inl e, s1) \<Rightarrow> (Inl e, s1)
            | (Inr zs, s1) \<Rightarrow> (Inr (xs @ ys @ zs), s1))"
proof -
  have props: "map (\<lambda>px. Inr (properties (fst px))) ys =
      map row_properties (filter (\<lambda>r. \<not> skipped r) rows)"
    by (rule for_rows_records [OF assms(2)])
  then have "length ys = length (filter (\<lambda>r. \<not> skipped r) rows)"
    by (metis length_map)
  moreover have "length (filter skipped rows) + length (filter (\<lambda>r. \<not> skipped r) rows)
      = length rows"
    by (rule sum_length_filter_compl)
  ultimately have count: "length ys = length rows - 1"
    using assms(3) by simp
  have "for_worksheets E (tagged body) (0 + length sheets_before)
      ((header # rows) # sheets_after) sa =
      (case for_worksheets E (tagged body) (Suc (length sheets_before)) sheets_after sb of
         (Inl e, s1) \<Rightarrow> (Inl e, s1)
       | (Inr zs, s1) \<Rightarrow> (Inr (ys @ zs), s1))"
    using assms(2) by simp
  with assms(1) have "for_worksheets E (tagged body) 0
      (sheets_before @ (header # rows) # sheets_after) s =
      (case for_worksheets E (tagged body) (Suc (length sheets_before)) sheets_after sb of
         (Inl e, s1) \<Rightarrow> (Inl e, s1)
       | (Inr zs, s1) \<Rightarrow> (Inr (xs @ ys @ zs), s1))"
    by (simp add: for_worksheets_append split: prod.splits sum.splits)
  with props count show ?thesis
    by (simp add: polling_stations_def)
qed

theorem null_first_cell_rows_skipped_witness:
  "for_worksheets szeged_env (tagged yield_only) 0
       [[[CStr ''header''], szeged_row (CInt 7)]] initial_state
     = (Inr [(szeged_record ''01'', szeged_record ''01'')],
        snd (for_worksheets szeged_env (tagged yield_only) 0
              [[[CStr ''header''], szeged_row (CInt 7)]] initial_state)) \<and>
   for_rows szeged_env (tagged yield_only)
       (length [[[CStr ''header''], szeged_row (CInt 7)]])
       [szeged_row CNone, szeged_row (CInt 8)]
       (snd (for_worksheets szeged_env (tagged yield_only) 0
              [[[CStr ''header''], szeged_row (CInt 7)]] initial_state))
     = (Inr [(szeged_record ''02'', szeged_record ''02'')],
        snd (for_rows szeged_env (tagged yield_only) 1
              [szeged_row CNone, szeged_row (CInt 8)]
              (snd (for_worksheets szeged_env (tagged yield_only) 0
                     [[[CStr ''header''], szeged_row (CInt 7)]] initial_state)))) \<and>
   length (filter skipped [szeged_row CNone, szeged_row (CInt 8)]) = 1 \<and>
   length [(szeged_record ''02'', szeged_record ''02'')]
     = length [szeged_row CNone, szeged_row (CInt 8)] - 1 \<and>
   map (\<lambda>px. Inr (properties (fst px))) [(szeged_record ''02'', szeged_record ''02'')] =
     map row_properties
       (filter (\<lambda>r. \<not> skipped r) [szeged_row CNone, szeged_row (CInt 8)])"
proof -
  have h1: "for_worksheets szeged_env (tagged yield_only) 0
       [[[CStr ''header''], szeged_row (CInt 7)]] initial_state
     = (Inr [(szeged_record ''01'', szeged_record ''01'')],
        snd (for_worksheets szeged_env (tagged yield_only) 0
              [[[CStr ''header''], szeged_row (CInt 7)]] initial_state))"
    using szeged_first_sheet by (simp add: prod_eq_iff)
  have h2: "for_rows szeged_env (tagged yield_only)
       (length [[[CStr ''header''], szeged_row (CInt 7)]])
       [szeged_row CNone, szeged_row (CInt 8)]
       (snd (for_worksheets szeged_env (tagged yield_only) 0
              [[[CStr ''header''], szeged_row (CInt 7)]] initial_state))
     = (Inr [(szeged_record ''02'', szeged_record ''02'')],
        snd (for_rows szeged_env (tagged yield_only) 1
              [szeged_row CNone, szeged_row (CInt 8)]
              (snd (for_worksheets szeged_env (tagged yield_only) 0
                     [[[CStr ''header''], szeged_row (CInt 7)]] initial_state))))"
    using szeged_second_sheet by (simp add: prod_eq_iff)
  have h3: "length (filter skipped [szeged_row CNone, szeged_row (CInt 8)]) = 1"
    by (simp add: skipped_def py_index_def szeged_row_def)
  from null_first_cell_rows_skipped [OF h1 h2 h3] h1 h2 h3 show ?thesis
    by simp
qed

lemma fetch_geometry_properties:
  "fetch_geometry E ps sa = (Inr f, sb) \<Longrightarrow> feature_properties f = properties ps"
  by (auto simp: fetch_geometry_def Let_def split: sum.splits)

lemma szeged_two_sheets:
  "fst (run szeged_env szeged_workbook initial_state) = Inr \<lparr>features = szeged_features\<rparr>"
  by code_simp

text \<open>
  C7. When \<^verbatim>\<open>run\<close> completes, the features of the document are exactly the list the
  geometry fetcher produced, untouched, and they are in the order of the records: the
  i-th feature was made from the i-th record the adapter yielded and carries its
  properties, and the records are those of the retained rows (first cell not \<^verbatim>\<open>None\<close>) in
  sheet order, then row order within a sheet.
\<close>

theorem features_in_record_order:
  assumes "run E wb s = (Inr fc, s1)"
  shows "fetch_polling_station_geometries E wb s = (Inr (features fc), s1) \<and>
         (\<exists>recs. polling_stations E (tagged (fetch_geometry E)) wb s
                    = (Inr (zip recs (features fc)), s1) \<and>
                  length recs = length (features fc) \<and>
                  map feature_properties (features fc) = map properties recs \<and>
                  map (\<lambda>ps. Inr (properties ps)) recs =
                    map row_properties (filter (\<lambda>r. \<not> skipped r) (data_rows wb)))"
proof -
  from assms have fetched: "fetch_polling_station_geometries E wb s = (Inr (features fc), s1)"
    by (auto simp: run_def split: prod.splits sum.splits)
  then obtain pxs where
    tagged: "for_worksheets E (tagged (fetch_geometry E)) 0 wb s = (Inr pxs, s1)" and
    fs: "features fc = map snd pxs"
    unfolding fetch_polling_station_geometries_def polling_stations_def
    by (rule for_worksheets_untag)
  have "list_all (\<lambda>px. feature_properties (snd px) = properties (fst px)) pxs"
    by (rule for_worksheets_results [OF tagged]) (rule fetch_geometry_properties)
  then have "map feature_properties (map snd pxs) = map properties (map fst pxs)"
    by (simp add: list_all_iff)
  moreover have "zip (map fst pxs) (map snd pxs) = pxs"
    by (simp add: zip_map_fst_snd)
  moreover have "map (\<lambda>ps. Inr (properties ps)) (map fst pxs) =
      map row_properties (filter (\<lambda>r. \<not> skipped r) (data_rows wb))"
    using for_worksheets_records [OF tagged] by (simp add: comp_def)
  ultimately have "polling_stations E (tagged (fetch_geometry E)) wb s
        = (Inr (zip (map fst pxs) (features fc)), s1) \<and>
      length (map fst pxs) = length (features fc) \<and>
      map feature_properties (features fc) = map properties (map fst pxs) \<and>
      map (\<lambda>ps. Inr (properties ps)) (map fst pxs) =
        map row_properties (filter (\<lambda>r. \<not> skipped r) (data_rows wb))"
    using tagged fs by (simp add: polling_stations_def)
  with fetched show ?thesis by blast
qed

theorem features_in_record_order_witness:
  "run szeged_env szeged_workbook initial_state
     = (Inr \<lparr>features = szeged_features\<rparr>,
        snd (run szeged_env szeged_workbook initial_state)) \<and>
   fetch_polling_station_geometries szeged_env szeged_workbook initial_state
     = (Inr szeged_features, snd (run szeged_env szeged_workbook initial_state)) \<and>
   (\<exists>recs. polling_stations szeged_env (tagged (fetch_geometry szeged_env)) szeged_workbook
                    initial_state
                  = (Inr (zip recs szeged_features),
                     snd (run szeged_env szeged_workbook initial_state)) \<and>
           length recs = length szeged_features \<and>
           map feature_properties szeged_features = map properties recs \<and>
           map (\<lambda>ps. Inr (properties ps)) recs =
             map row_properties [szeged_row (CInt 7), szeged_row (CInt 8)])"
proof -
  have ran: "run szeged_env szeged_workbook initial_state
     = (Inr \<lparr>features = szeged_features\<rparr>,
        snd (run szeged_env szeged_workbook initial_state))"
    using szeged_two_sheets by (simp add: prod_eq_iff)
  have rows: "filter (\<lambda>r. \<not> skipped r) (data_rows szeged_workbook)
     = [szeged_row (CInt 7), szeged_row (CInt 8)]"
    by (simp add: szeged_workbook_def data_rows_def skipped_def py_index_def szeged_row_def)
  have sel: "features \<lparr>features = szeged_features\<rparr> = szeged_features"
    by simp
  from features_in_record_order [OF ran] ran show ?thesis
    unfolding rows sel by (rule conjI [rotated])
qed

section \<open>The lookup key\<close>








section \<open>Failure of the resolution\<close>












section \<open>Failure of a geometry request\<close>






















section \<open>The matching rule of the resolver\<close>

lemma sre_parse_literals:
  "\<forall>c\<in>set n. \<not> metachar c
    \<Longrightarrow> sre_parse (n @ rest) cur stack = sre_parse rest (rev (map Lit n) @ cur) stack"
  by (induction n arbitrary: cur) (auto simp: metachar_def)

lemma sre_parse_pattern:
  assumes "\<forall>c\<in>set n. \<not> metachar c"
  shows "sre_parse (search_pattern (CStr n)) [] [] =
     Parsed (re_seq (Bol # map Lit n @
       [Opt (Cat (Lit CHR '' '') (Cat (Plus AnyChar) Empty)), Eol]))"
proof -
  have "sre_parse (search_pattern (CStr n)) [] [] =
      sre_parse (n @ ''(?: .+)?$'') [Bol] []"
    by (simp add: search_pattern_def str_cell_def)
  also have "\<dots> = sre_parse ''(?: .+)?$'' (rev (map Lit n) @ [Bol]) []"
    using assms by (rule sre_parse_literals)
  also have "\<dots> = Parsed (re_seq (rev (Eol # Opt (Cat (Lit CHR '' '') (Cat (Plus AnyChar) Empty))
      # rev (map Lit n) @ [Bol])))"
    by (simp add: quantify_def quantified_def)
  finally show ?thesis by simp
qed

lemma re_step_literals:
  "re_step (re_seq (map Lit n @ R)) (b, d) =
     (if take (length n) d = n \<and> length n \<le> length d
      then re_step (re_seq R) (b \<and> n = [], drop (length n) d) else [])"
proof (induction n arbitrary: b d)
  case Nil
  then show ?case by simp
next
  case (Cons c n)
  show ?case
  proof (cases d)
    case Nil
    then show ?thesis by simp
  next
    case (Cons x xs)
    with Cons.IH [of False xs] show ?thesis by simp
  qed
qed

lemma any_step:
  assumes "newline \<notin> set t"
  shows "re_step AnyChar (b, drop j t) = (if j < length t then [(False, drop (Suc j) t)] else [])"
proof (cases "j < length t")
  case True
  then have "drop j t = t ! j # drop (Suc j) t"
    by (simp add: Cons_nth_drop_Suc)
  moreover from True assms have "t ! j \<noteq> newline"
    by (metis nth_mem)
  ultimately show ?thesis using True by simp
next
  case False
  then show ?thesis by simp
qed

lemma closure_any:
  assumes "newline \<notin> set t"
  shows "set (((\<lambda>ps. remdups (ps @ concat (map (re_step AnyChar) ps))) ^^ k) [(b, t)]) =
     insert (b, t) {(False, drop j t) | j. 1 \<le> j \<and> j \<le> k \<and> j \<le> length t}"
proof (induction k)
  case 0
  then show ?case by simp
next
  case (Suc k)
  have first: "set (re_step AnyChar (b, t)) = (if t = [] then {} else {(False, drop 1 t)})"
    using any_step [OF assms, of b 0] by simp
  have later: "\<And>j. set (re_step AnyChar (False, drop j t)) =
      (if j < length t then {(False, drop (Suc j) t)} else {})"
    using any_step [OF assms] by simp
  have "set (((\<lambda>ps. remdups (ps @ concat (map (re_step AnyChar) ps))) ^^ Suc k) [(b, t)]) =
      insert (b, t) {(False, drop j t) | j. 1 \<le> j \<and> j \<le> k \<and> j \<le> length t} \<union>
      (set (re_step AnyChar (b, t)) \<union>
       (\<Union>p \<in> {(False, drop j t) | j. 1 \<le> j \<and> j \<le> k \<and> j \<le> length t}.
          set (re_step AnyChar p)))"
    using Suc.IH by simp
  also have "\<dots> = insert (b, t) {(False, drop j t) | j. 1 \<le> j \<and> j \<le> Suc k \<and> j \<le> length t}"
    (is "?L = ?R")
  proof (rule set_eqI, rule iffI)
    fix q assume "q \<in> ?L"
    then consider "q = (b, t)" | j where "1 \<le> j" "j \<le> k" "j \<le> length t" "q = (False, drop j t)"
      | "q \<in> set (re_step AnyChar (b, t))"
      | j where "1 \<le> j" "j \<le> k" "j \<le> length t" "q \<in> set (re_step AnyChar (False, drop j t))"
      by (auto simp del: re_step.simps)
    then show "q \<in> ?R"
    proof cases
      case 1
      then show ?thesis by simp
    next
      case 2
      then show ?thesis by auto
    next
      case 3
      then have "t \<noteq> []" and "q = (False, drop 1 t)"
        unfolding first by (auto split: if_splits)
      then show ?thesis
        by (intro insertI2 CollectI exI [of _ 1]) (cases t; simp)
    next
      case 4
      then have "j < length t" and "q = (False, drop (Suc j) t)"
        unfolding later by (auto split: if_splits)
      with 4 show ?thesis
        by (intro insertI2 CollectI exI [of _ "Suc j"]) simp
    qed
  next
    fix q assume "q \<in> ?R"
    then consider "q = (b, t)" | j where "1 \<le> j" "j \<le> Suc k" "j \<le> length t" "q = (False, drop j t)"
      by auto
    then show "q \<in> ?L"
    proof cases
      case 1
      then show ?thesis by simp
    next
      case 2
      show ?thesis
      proof (cases "j \<le> k")
        case True
        with 2 show ?thesis by auto
      next
        case False
        with 2 have j: "j = Suc k" by simp
        show ?thesis
        proof (cases k)
          case 0
          with j 2 have "t \<noteq> []" and "q = (False, drop 1 t)" by auto
          then have "q \<in> set (re_step AnyChar (b, t))"
            unfolding first by simp
          then show ?thesis by blast
        next
          case (Suc k')
          with j 2 have "1 \<le> k" "k \<le> k" "k \<le> length t" "k < length t" by simp_all
          moreover from j 2 \<open>k < length t\<close>
          have "q \<in> set (re_step AnyChar (False, drop k t))"
            unfolding later by simp
          ultimately show ?thesis by blast
        qed
      qed
    qed
  qed
  finally show ?case .
qed

lemma plus_any:
  assumes "newline \<notin> set t"
  shows "set (re_step (Plus AnyChar) (False, t)) =
     {(False, drop j t) | j. 1 \<le> j \<and> j \<le> length t}"
proof -
  have later: "\<And>j. set (re_step AnyChar (False, drop j t)) =
      (if j < length t then {(False, drop (Suc j) t)} else {})"
    using any_step [OF assms] by simp
  have "set (re_step (Plus AnyChar) (False, t)) =
      (\<Union>p \<in> insert (False, t) {(False, drop j t) | j. 1 \<le> j \<and> j \<le> length t}.
         set (re_step AnyChar p))"
    using closure_any [OF assms, of "length t" False] by (simp add: star_closure_def)
  also have "\<dots> = (\<Union>j \<in> {0..length t}. set (re_step AnyChar (False, drop j t)))"
  proof -
    have "insert (False, t) {(False, drop j t) | j. 1 \<le> j \<and> j \<le> length t} =
        (\<lambda>j. (False, drop j t)) ` {0..length t}"
    proof (rule set_eqI, rule iffI)
      fix q assume "q \<in> insert (False, t) {(False, drop j t) | j. 1 \<le> j \<and> j \<le> length t}"
      then consider "q = (False, drop 0 t)" | j where "j \<le> length t" "q = (False, drop j t)"
        by auto
      then show "q \<in> (\<lambda>j. (False, drop j t)) ` {0..length t}"
      proof cases
        case 1
        then show ?thesis by (intro image_eqI [of _ _ 0]) simp_all
      next
        case 2
        then show ?thesis by (intro image_eqI [of _ _ j]) simp_all
      qed
    next
      fix q assume "q \<in> (\<lambda>j. (False, drop j t)) ` {0..length t}"
      then obtain j where j: "j \<le> length t" "q = (False, drop j t)" by auto
      show "q \<in> insert (False, t) {(False, drop j t) | j. 1 \<le> j \<and> j \<le> length t}"
      proof (cases j)
        case 0
        with j show ?thesis by simp
      next
        case (Suc j')
        with j show ?thesis by auto
      qed
    qed
    then show ?thesis by simp
  qed
  also have "\<dots> = {(False, drop j t) | j. 1 \<le> j \<and> j \<le> length t}"
  proof (rule set_eqI, rule iffI)
    fix q assume "q \<in> (\<Union>j \<in> {0..length t}. set (re_step AnyChar (False, drop j t)))"
    then obtain j where "j \<le> length t" "q \<in> set (re_step AnyChar (False, drop j t))"
      by (auto simp del: re_step.simps)
    then have "j < length t" "q = (False, drop (Suc j) t)"
      unfolding later by (auto split: if_splits)
    then show "q \<in> {(False, drop j t) | j. 1 \<le> j \<and> j \<le> length t}"
      by (intro CollectI exI [of _ "Suc j"]) simp
  next
    fix q assume "q \<in> {(False, drop j t) | j. 1 \<le> j \<and> j \<le> length t}"
    then obtain j where j: "1 \<le> j" "j \<le> length t" "q = (False, drop j t)" by auto
    then obtain j' where j': "j = Suc j'" by (cases j) auto
    with j have "j' \<in> {0..length t}" "q \<in> set (re_step AnyChar (False, drop j' t))"
      unfolding later by auto
    then show "q \<in> (\<Union>j \<in> {0..length t}. set (re_step AnyChar (False, drop j t)))"
      by blast
  qed
  finally show ?thesis .
qed

lemma concat_nonempty: "(concat (map f xs) \<noteq> []) = (\<exists>x \<in> set xs. f x \<noteq> [])"
  by (induction xs) auto

lemma tail_accepts:
  assumes "newline \<notin> set u"
  shows "(re_step (re_seq [Opt (Cat (Lit CHR '' '') (Cat (Plus AnyChar) Empty)), Eol]) (b, u) \<noteq> [])
     = (u = [] \<or> (\<exists>t. u = CHR '' '' # t \<and> t \<noteq> []))"
proof (cases u)
  case Nil
  then show ?thesis by simp
next
  case (Cons x t)
  with assms have t: "newline \<notin> set t" and x: "x \<noteq> newline" by auto
  show ?thesis
  proof (cases "x = CHR '' ''")
    case False
    with Cons x show ?thesis by simp
  next
    case True
    have group: "re_step (Cat (Lit CHR '' '') (Cat (Plus AnyChar) Empty)) (b, u) =
        concat (map (\<lambda>q. [q]) (re_step (Plus AnyChar) (False, t)))"
      using Cons True by (simp del: re_step.simps(8) add: comp_def)
    have eol: "\<And>q. (re_step (re_seq [Eol]) q \<noteq> []) = (snd q = [] \<or> snd q = [newline])"
      by simp
    have "(re_step (re_seq [Opt (Cat (Lit CHR '' '') (Cat (Plus AnyChar) Empty)), Eol]) (b, u) \<noteq> [])
        = (\<exists>q \<in> set (re_step (Plus AnyChar) (False, t)). snd q = [] \<or> snd q = [newline])"
    proof -
      have "re_step (re_seq [Opt (Cat (Lit CHR '' '') (Cat (Plus AnyChar) Empty)), Eol]) (b, u)
          = concat (map (re_step (re_seq [Eol]))
              ((b, u) # re_step (Cat (Lit CHR '' '') (Cat (Plus AnyChar) Empty)) (b, u)))"
        by (simp del: re_step.simps(8))
      also have "(\<dots> \<noteq> []) =
          (\<exists>q \<in> set ((b, u) # re_step (Cat (Lit CHR '' '') (Cat (Plus AnyChar) Empty)) (b, u)).
             re_step (re_seq [Eol]) q \<noteq> [])"
        by (rule concat_nonempty)
      also have "\<dots> = (\<exists>q \<in> set (re_step (Plus AnyChar) (False, t)).
          snd q = [] \<or> snd q = [newline])"
        unfolding eol group using Cons x by simp
      finally show ?thesis .
    qed
    also have "\<dots> = (\<exists>j. 1 \<le> j \<and> j \<le> length t \<and> (drop j t = [] \<or> drop j t = [newline]))"
      unfolding plus_any [OF t] by auto
    also have "\<dots> = (t \<noteq> [])"
    proof
      assume "\<exists>j. 1 \<le> j \<and> j \<le> length t \<and> (drop j t = [] \<or> drop j t = [newline])"
      then show "t \<noteq> []" by auto
    next
      assume "t \<noteq> []"
      then have "1 \<le> length t \<and> length t \<le> length t \<and> drop (length t) t = []"
        by (cases t) simp_all
      then show "\<exists>j. 1 \<le> j \<and> j \<le> length t \<and> (drop j t = [] \<or> drop j t = [newline])"
        by blast
    qed
    finally show ?thesis using Cons True by simp
  qed
qed

lemma name_matches_split:
  "name_matches n d =
     (take (length n) d = n \<and> length n \<le> length d \<and>
      (drop (length n) d = [] \<or> (\<exists>t. drop (length n) d = CHR '' '' # t \<and> t \<noteq> [])))"
proof
  assume "name_matches n d"
  then consider "d = n" | "length n + 1 < length d" "take (length n + 1) d = n @ '' ''"
    by (auto simp: name_matches_def)
  then show "take (length n) d = n \<and> length n \<le> length d \<and>
      (drop (length n) d = [] \<or> (\<exists>t. drop (length n) d = CHR '' '' # t \<and> t \<noteq> []))"
  proof cases
    case 1
    then show ?thesis by simp
  next
    case 2
    have "d = take (length n + 1) d @ drop (length n + 1) d" by simp
    with 2 have d: "d = n @ CHR '' '' # drop (length n + 1) d" by simp
    from 2 have "drop (length n + 1) d \<noteq> []" by simp
    with d show ?thesis
      by (metis append_eq_conv_conj le_add1 length_append)
  qed
next
  assume r: "take (length n) d = n \<and> length n \<le> length d \<and>
      (drop (length n) d = [] \<or> (\<exists>t. drop (length n) d = CHR '' '' # t \<and> t \<noteq> []))"
  have d: "d = take (length n) d @ drop (length n) d" by simp
  from r consider "drop (length n) d = []" | t where "drop (length n) d = CHR '' '' # t" "t \<noteq> []"
    by auto
  then show "name_matches n d"
  proof cases
    case 1
    with r d have "d = n" by simp
    then show ?thesis by (simp add: name_matches_def)
  next
    case 2
    with r d have "d = n @ CHR '' '' # t" by simp
    with 2 show ?thesis by (simp add: name_matches_def)
  qed
qed

lemma pattern_accepts:
  assumes "newline \<notin> set d"
  shows "re_accepts (re_seq (Bol # map Lit n @
       [Opt (Cat (Lit CHR '' '') (Cat (Plus AnyChar) Empty)), Eol])) d = name_matches n d"
proof -
  have "re_step (re_seq (Bol # map Lit n @
       [Opt (Cat (Lit CHR '' '') (Cat (Plus AnyChar) Empty)), Eol])) (True, d)
     = re_step (re_seq (map Lit n @
       [Opt (Cat (Lit CHR '' '') (Cat (Plus AnyChar) Empty)), Eol])) (True, d)"
    by simp
  also have "\<dots> = (if take (length n) d = n \<and> length n \<le> length d
      then re_step (re_seq [Opt (Cat (Lit CHR '' '') (Cat (Plus AnyChar) Empty)), Eol])
             (True \<and> n = [], drop (length n) d) else [])"
    by (rule re_step_literals)
  finally have eq: "re_step (re_seq (Bol # map Lit n @
       [Opt (Cat (Lit CHR '' '') (Cat (Plus AnyChar) Empty)), Eol])) (True, d)
     = (if take (length n) d = n \<and> length n \<le> length d
      then re_step (re_seq [Opt (Cat (Lit CHR '' '') (Cat (Plus AnyChar) Empty)), Eol])
             (True \<and> n = [], drop (length n) d) else [])" .
  have acc: "re_accepts (re_seq (Bol # map Lit n @
       [Opt (Cat (Lit CHR '' '') (Cat (Plus AnyChar) Empty)), Eol])) d =
     (take (length n) d = n \<and> length n \<le> length d \<and>
      re_step (re_seq [Opt (Cat (Lit CHR '' '') (Cat (Plus AnyChar) Empty)), Eol])
             (True \<and> n = [], drop (length n) d) \<noteq> [])"
    unfolding re_accepts_def eq by (cases "take (length n) d = n \<and> length n \<le> length d")
      (auto simp del: re_step.simps re_seq.simps)
  from assms have nl: "newline \<notin> set (drop (length n) d)"
    by (meson in_set_dropD)
  show ?thesis
    unfolding name_matches_split acc tail_accepts [OF nl, of "True \<and> n = []"]
    by (rule refl)
qed

lemma candidate_matches_spec:
  assumes "python_re E" "\<forall>c\<in>set n. \<not> metachar c" "newline \<notin> set d"
  shows "candidate_matches E (CStr n) (candidate (d, c)) = Inr (name_matches n d)"
proof -
  from assms(1) sre_parse_pattern [OF assms(2)]
  have "re_compile E (search_pattern (CStr n)) =
      Inr (re_accepts (re_seq (Bol # map Lit n @
        [Opt (Cat (Lit CHR '' '') (Cat (Plus AnyChar) Empty)), Eol])))"
    unfolding python_re_def by blast
  then show ?thesis
    using pattern_accepts [OF assms(3), of n]
    by (simp add: candidate_matches_def candidate_def py_getitem_def)
qed

lemma next_match_spec:
  assumes "python_re E" "\<forall>c\<in>set n. \<not> metachar c" "\<forall>dc\<in>set cands. newline \<notin> set (fst dc)"
  shows "next_match E (CStr n) (map candidate cands) =
     (case first_code n cands of Some code \<Rightarrow> Inr code | None \<Rightarrow> Inl StopIteration)"
  using assms(3)
proof (induction cands)
  case Nil
  then show ?case by (simp add: first_code_def)
next
  case (Cons dc cands)
  obtain d c where dc: "dc = (d, c)" by (cases dc)
  with Cons.prems have "newline \<notin> set d" by simp
  from candidate_matches_spec [OF assms(1,2) this, of c] dc
  have m: "candidate_matches E (CStr n) (candidate dc) = Inr (name_matches n d)" by simp
  have code: "py_getitem (candidate dc) ''telepulesKod'' = Inr c"
    using dc by (simp add: py_getitem_def candidate_def)
  from Cons show ?case
    using m code dc by (simp add: first_code_def)
qed

lemma dotted_name_selected:
  "fst (get_settlement_code dotted_env (CStr ''A.B'') initial_state) = Inr (PStr ''1'')"
  by code_simp

text \<open>
  C10. The pattern is the settlement name put between \<^verbatim>\<open>^\<close> and \<^verbatim>\<open>(?: .+)?$\<close> as it is,
  without escaping. With the settlement name \<^verbatim>\<open>A.B\<close>, whose dot is a metacharacter, the
  candidate with the display name \<^verbatim>\<open>AXB\<close> is selected, although \<^verbatim>\<open>AXB\<close> is neither the
  settlement name nor the settlement name followed by a space and a suffix.
\<close>

theorem unescaped_name_in_pattern:
  "search_pattern (CStr name) = ''^'' @ name @ ''(?: .+)?$'' \<and>
   metachar (CHR ''.'') \<and>
   fst (get_settlement_code dotted_env (CStr ''A.B'') initial_state) = Inr (PStr ''1'') \<and>
   ''AXB'' \<noteq> ''A.B'' \<and> \<not> name_matches ''A.B'' ''AXB''"
  using dotted_name_selected
  by (simp add: search_pattern_def str_cell_def metachar_def name_matches_def)

lemma loose_dot:
  "fst (get_settlement_code loose_env (CStr ''B.k'') initial_state) = Inr (PStr ''7'')"
  by code_simp

lemma loose_line_feed:
  "fst (get_settlement_code loose_env (CStr ''Szeged'') initial_state) = Inr (PStr ''8'')"
  by code_simp

lemma loose_suffix:
  "fst (get_settlement_code loose_env (CStr ''Tata'') initial_state) =
     Inl (ResolutionError (CStr ''Tata'') StopIteration (search_params (CStr ''Tata'')))"
  by code_simp

text \<open>
  C2, as stated, fails in both directions. For the settlement name \<^verbatim>\<open>B.k\<close> the candidate
  \<^verbatim>\<open>Bak\<close> is selected, and for \<^verbatim>\<open>Szeged\<close> the candidate whose display name is \<^verbatim>\<open>Szeged\<close>
  followed by a line feed is selected, although neither display name is the settlement
  name or the settlement name, a space and a suffix. For \<^verbatim>\<open>Tata\<close> the candidate whose
  display name is \<^verbatim>\<open>Tata\<close>, a space and a suffix that contains a line feed is not selected.
\<close>

theorem anchored_match_counterexample:
  "fst (get_settlement_code loose_env (CStr ''B.k'') initial_state) = Inr (PStr ''7'') \<and>
   \<not> name_matches ''B.k'' ''Bak'' \<and>
   fst (get_settlement_code loose_env (CStr ''Szeged'') initial_state) = Inr (PStr ''8'') \<and>
   \<not> name_matches ''Szeged'' (''Szeged'' @ [newline]) \<and>
   fst (get_settlement_code loose_env (CStr ''Tata'') initial_state) =
     Inl (ResolutionError (CStr ''Tata'') StopIteration (search_params (CStr ''Tata''))) \<and>
   name_matches ''Tata'' (''Tata a'' @ newline # ''b'')"
  using loose_dot loose_line_feed loose_suffix
  by (simp add: name_matches_def)

text \<open>
  C2, amended. For every settlement name that contains no regular-expression
  metacharacter and every sequence of remote candidates (each with a display name and a
  code) whose display names contain no line feed, the resolver selects the first
  candidate whose display name exactly equals the settlement name or equals the
  settlement name followed by a space and a non-empty suffix, and fails when there is
  none; no candidate whose display name merely contains the settlement name is selected
  (the name \<^verbatim>\<open>Szeged\<close> matches the display names \<^verbatim>\<open>Szeged\<close> and \<^verbatim>\<open>Szeged X\<close> but not
  \<^verbatim>\<open>Szegedinum\<close> or \<^verbatim>\<open>Nagy Szeged\<close>).
\<close>

theorem anchored_candidate_selected:
  assumes "python_re E"
    and "\<forall>c\<in>set name. \<not> metachar c"
    and "\<forall>dc\<in>set cands. newline \<notin> set (fst dc)"
    and "cache s (CStr name) = None"
    and "search_get E (requests s) (search_params (CStr name))
           = Inr (Inr (PList (map candidate cands)))"
  shows "fst (get_settlement_code E (CStr name) s) =
     (case first_code name cands of
        Some code \<Rightarrow> Inr code
      | None \<Rightarrow> Inl (ResolutionError (CStr name) StopIteration (search_params (CStr name))))"
  using assms(4,5) next_match_spec [OF assms(1,2,3)]
  by (simp add: get_settlement_code_def Let_def select_code_def and_then_def py_iter_def
      split: option.splits)

theorem anchored_candidate_selected_witness:
  "python_re anchored_env \<and>
   list_all (\<lambda>c. \<not> metachar c) ''Szeged'' \<and>
   list_all (\<lambda>dc. newline \<notin> set (fst dc)) szeged_candidates \<and>
   cache initial_state (CStr ''Szeged'') = None \<and>
   search_get anchored_env (requests initial_state) (search_params (CStr ''Szeged''))
     = Inr (Inr (PList (map candidate szeged_candidates))) \<and>
   fst (get_settlement_code anchored_env (CStr ''Szeged'') initial_state) = Inr (PStr ''3'') \<and>
   name_matches ''Szeged'' ''Szeged'' \<and> name_matches ''Szeged'' ''Szeged X'' \<and>
   \<not> name_matches ''Szeged'' ''Szegedinum'' \<and> \<not> name_matches ''Szeged'' ''Nagy Szeged''"
proof -
  have h1: "python_re anchored_env"
    by (simp add: python_re_def anchored_env_def reference_env_def py_re_compile_def)
  have h2: "\<forall>c\<in>set ''Szeged''. \<not> metachar c"
    by (simp add: metachar_def)
  have h3: "\<forall>dc\<in>set szeged_candidates. newline \<notin> set (fst dc)"
    by (simp add: szeged_candidates_def newline_def)
  have h4: "cache initial_state (CStr ''Szeged'') = None"
    by (simp add: initial_state_def)
  have h5: "search_get anchored_env (requests initial_state) (search_params (CStr ''Szeged''))
      = Inr (Inr (PList (map candidate szeged_candidates)))"
    by (simp add: anchored_env_def reference_env_def search_service_def search_params_def
        dict_merge_def API_SEARCH_PARAMS_def API_COMMON_PARAMS_def cell_val_def)
  have first: "first_code ''Szeged'' szeged_candidates = Some (PStr ''3'')"
    by (simp add: first_code_def szeged_candidates_def name_matches_def)
  have examples: "name_matches ''Szeged'' ''Szeged'' \<and> name_matches ''Szeged'' ''Szeged X'' \<and>
      \<not> name_matches ''Szeged'' ''Szegedinum'' \<and> \<not> name_matches ''Szeged'' ''Nagy Szeged''"
    by (simp add: name_matches_def)
  from anchored_candidate_selected [OF h1 h2 h3 h4 h5] first h1 h2 h3 h4 h5 examples
  show ?thesis by (simp add: list_all_iff)
qed

section \<open>End to end\<close>

lemma szeged_run:
  "fst (run szeged_env [[header, szeged_row (CInt 7)]] initial_state) =
     Inr \<lparr>features =
            [\<lparr>geometry = Some szeged_polygon, feature_properties = szeged_properties\<rparr>]\<rparr>"
  by code_simp

lemma szeged_coordinates:
  "traverse lng_lat [point 46.0 20.0, point 46.1 20.1, point 46.0 20.2] =
     Inr [(PFloat 20.0, PFloat 46.0), (PFloat 20.1, PFloat 46.1), (PFloat 20.2, PFloat 46.0)]"
  by (simp add: lng_lat_def point_def py_getitem_def and_then_def)

lemma szeged_ring:
  "polygon_mapping szeged_env
     [(PFloat 20.0, PFloat 46.0), (PFloat 20.1, PFloat 46.1), (PFloat 20.2, PFloat 46.0)]
   = Inr szeged_polygon"
  by (simp add: szeged_env_def reference_env_def shapely_polygon_mapping_def as_float_def
      and_then_def close_ring_def szeged_polygon_def)

text \<open>
  C8. The source has one sheet with a header row and one data row (COUNTY \<^verbatim>\<open>Pest\<close>,
  SETTLEMENT \<^verbatim>\<open>Szeged\<close>, STATION_NO 1, all counters 5; the first positional cell, which is
  not a property, holds anything but \<^verbatim>\<open>None\<close>); the search service answers the keyword
  \<^verbatim>\<open>Szeged\<close> with the code \<^verbatim>\<open>123\<close>; the map service answers the lookup key (123, 01, 1)
  with the points (lat 46.0, lng 20.0), (lat 46.1, lng 20.1), (lat 46.0, lng 20.2). Then the
  output is a FeatureCollection with exactly one feature; its properties include the
  county, the settlement and the station number of the row; its geometry is the polygon
  built from the longitude-first pairs (20.0, 46.0), (20.1, 46.1), (20.2, 46.0) in that
  order, closed by repeating the first vertex.
\<close>

theorem end_to_end_szeged:
  assumes "first \<noteq> CNone"
  shows "fst (run szeged_env [[header, szeged_row first]] initial_state) =
           Inr \<lparr>features =
                  [\<lparr>geometry = Some szeged_polygon, feature_properties = szeged_properties\<rparr>]\<rparr> \<and>
         map_of szeged_properties ''COUNTY'' = Some (CStr ''Pest'') \<and>
         map_of szeged_properties ''SETTLEMENT'' = Some (CStr ''Szeged'') \<and>
         map_of szeged_properties ''STATION_NO'' = Some (CInt 1) \<and>
         json_loads szeged_env szeged_paths =
           Inr (PList [point 46.0 20.0, point 46.1 20.1, point 46.0 20.2]) \<and>
         traverse lng_lat [point 46.0 20.0, point 46.1 20.1, point 46.0 20.2] =
           Inr [(PFloat 20.0, PFloat 46.0), (PFloat 20.1, PFloat 46.1),
                (PFloat 20.2, PFloat 46.0)] \<and>
         polygon_mapping szeged_env
             [(PFloat 20.0, PFloat 46.0), (PFloat 20.1, PFloat 46.1), (PFloat 20.2, PFloat 46.0)]
           = Inr szeged_polygon \<and>
         szeged_polygon =
           PDict [(''type'', PStr ''Polygon''),
                  (''coordinates'',
                     PList [PList [PList [PFloat 20.0, PFloat 46.0],
                                   PList [PFloat 20.1, PFloat 46.1],
                                   PList [PFloat 20.2, PFloat 46.0],
                                   PList [PFloat 20.0, PFloat 46.0]]])]"
proof -
  from assms have "polling_stations_row szeged_env 0 (szeged_row first) initial_state =
      polling_stations_row szeged_env 0 (szeged_row (CInt 7)) initial_state"
    unfolding szeged_row_def by (intro polling_stations_row_first) simp_all
  then have "run szeged_env [[header, szeged_row first]] initial_state =
      run szeged_env [[header, szeged_row (CInt 7)]] initial_state"
    by (simp add: run_def fetch_polling_station_geometries_def polling_stations_def)
  with szeged_run [of header] have "fst (run szeged_env [[header, szeged_row first]] initial_state) =
      Inr \<lparr>features =
             [\<lparr>geometry = Some szeged_polygon, feature_properties = szeged_properties\<rparr>]\<rparr>"
    by simp
  moreover have "json_loads szeged_env szeged_paths =
      Inr (PList [point 46.0 20.0, point 46.1 20.1, point 46.0 20.2])"
    by (simp add: szeged_env_def reference_env_def szeged_loads_def)
  ultimately show ?thesis
    using szeged_coordinates szeged_ring
    by (simp add: szeged_properties_def szeged_polygon_def)
qed

theorem end_to_end_szeged_witness:
  "CStr ''1.'' \<noteq> CNone \<and>
   fst (run szeged_env [[[CStr ''header''], szeged_row (CStr ''1.'')]] initial_state) =
     Inr \<lparr>features =
            [\<lparr>geometry = Some szeged_polygon, feature_properties = szeged_properties\<rparr>]\<rparr>"
  using end_to_end_szeged [of "CStr ''1.''" "[CStr ''header'']"]
  by simp

end
